theory Spec2Isabelle
  imports Complex_Main
begin

section \<open>Data model of \<open>DataItem.py\<close>\<close>

text \<open>
  A numpy array is kept as its shape, the name of its dtype and its elements in row-major
  order. No claim computes with the elements; they are integers here.
\<close>

record ndarray =
  shape :: "nat list"
  dtype :: string
  elems :: "int list"

text \<open>\<open>Calibration.Calibration()\<close> is the identity calibration: offset 0, scale 1, no unit.\<close>

record calibration =
  offset :: rat
  scale :: rat
  units :: string

definition Calibration :: calibration where
  "Calibration = \<lparr>offset = 0, scale = 1, units = []\<rparr>"

text \<open>
  Modelled from the spec: the \<open>Operation\<close> module is not part of the sources. An operation
  is what section 6 of the specification says the data item consumes from it: the
  \<open>enabled\<close> flag, the data-processing function and the shape and dtype transfer function
  (the dtype it is handed can be \<open>None\<close>).
\<close>

record operation =
  enabled :: bool
  process_data :: "ndarray \<Rightarrow> ndarray"
  get_processed_data_shape_and_dtype ::
    "nat list \<Rightarrow> string option \<Rightarrow> nat list \<times> string option"

text \<open>The enumeration of change kinds, lines 172 to 175.\<close>

definition DATA :: int where "DATA = 1"
definition METADATA :: int where "METADATA = 2"
definition DISPLAYS :: int where "DISPLAYS = 3"
definition SOURCE :: int where "SOURCE = 4"

text \<open>
  The fields of one \<open>DataItem\<close> object that the modelled methods read or write, under the
  names \<open>__init__\<close> gives them. \<open>transaction_count\<close> and \<open>datastore\<close> are inherited from
  \<open>Storage.StorageBase\<close>: the datastore is \<open>None\<close> when the item has none, and otherwise
  holds the array that \<open>load_data_reference\<close> returns for the key \<open>master_data\<close>.
  \<open>data_range_cached\<close> says whether the storage cache holds a value under the key
  \<open>data_range\<close> (\<open>set_cached_value\<close> and \<open>remove_cached_value\<close>).
\<close>

record item_state =
  master_data :: "ndarray option"
  master_data_shape :: "nat list option"
  master_data_dtype :: "string option"
  has_master_data :: bool
  cached_data :: "ndarray option"
  cached_data_dirty :: bool
  data_range_cached :: bool
  data_ref_count :: int
  data_item_change_count :: int
  data_item_changes :: "int set"
  operations :: "operation list"
  intrinsic_spatial_calibrations :: "calibration list"
  closed :: bool
  transaction_count :: int
  datastore :: "ndarray option"

text \<open>
  A data item together with the item its \<open>__data_source\<close> field refers to, if any. The
  methods that follow \<open>__data_source\<close> (reference counting, \<open>__get_data\<close>, the shape
  query) are recursive functions over this chain; the other methods work on the item's
  own fields.
\<close>

datatype data_item = DataItem (own: item_state) (data_source: "data_item option")

text \<open>
  What a method does to the outside, in the order it does it: a call to an operation's
  \<open>process_data\<close>, a load from or an unload check against the datastore, the message to
  the processors, the \<open>data_item_content_changed\<close> message to the listeners with the set
  of changes it carries, and the \<open>data_item_calibration_changed\<close> message to them.
\<close>

datatype event =
    ProcessData
  | LoadMasterData
  | UnloadAttempt
  | ProcessorsChanged
  | CacheCleared
  | Notify "int set"
  | CalibrationChanged

text \<open>
  \<open>__init__\<close> with \<open>data=None\<close>, before any display is added: no master data, no source,
  nothing cached, all counters at zero.
\<close>

definition new_item_state :: item_state where
  "new_item_state = \<lparr>master_data = None, master_data_shape = None, master_data_dtype = None,
     has_master_data = False, cached_data = None, cached_data_dirty = True,
     data_range_cached = False, data_ref_count = 0, data_item_change_count = 0,
     data_item_changes = {},
     operations = [], intrinsic_spatial_calibrations = [], closed = False,
     transaction_count = 0, datastore = None\<rparr>"

section \<open>Change accumulator\<close>

definition begin_data_item_changes :: "item_state \<Rightarrow> item_state" where
  "begin_data_item_changes s = s\<lparr>data_item_change_count := data_item_change_count s + 1\<rparr>"

text \<open>
  \<open>__clear_cached_data\<close> marks the derived data dirty. (It also marks the cached data
  range dirty in the storage cache; nothing modelled here reads that mark.)
\<close>

definition clear_cached_data :: "item_state \<Rightarrow> item_state" where
  "clear_cached_data s = s\<lparr>cached_data_dirty := True\<rparr>"

text \<open>
  \<open>end_data_item_changes\<close>: the count goes down; at zero the pending set is swapped for an
  empty one, the processors are told, the cache is cleared when the set holds \<open>DATA\<close> or
  \<open>SOURCE\<close>, and the listeners get the set.
\<close>

definition end_data_item_changes :: "item_state \<Rightarrow> item_state \<times> event list" where
  "end_data_item_changes s =
     (let s1 = s\<lparr>data_item_change_count := data_item_change_count s - 1\<rparr> in
      if data_item_change_count s1 = 0 then
        (let changes = data_item_changes s1;
             s2 = s1\<lparr>data_item_changes := {}\<rparr> in
         if DATA \<in> changes \<or> SOURCE \<in> changes
         then (clear_cached_data s2, [ProcessorsChanged, CacheCleared, Notify changes])
         else (s2, [ProcessorsChanged, Notify changes]))
      else (s1, []))"

text \<open>
  \<open>notify_data_item_content_changed\<close> records its changes between a \<open>begin\<close> and an
  \<open>end\<close> of its own.
\<close>

definition notify_data_item_content_changed ::
    "int set \<Rightarrow> item_state \<Rightarrow> item_state \<times> event list" where
  "notify_data_item_content_changed changes s =
     (let s1 = begin_data_item_changes s;
          s2 = s1\<lparr>data_item_changes := data_item_changes s1 \<union> changes\<rparr>
      in end_data_item_changes s2)"

text \<open>A caller's sequence of calls on the accumulator, and running it.\<close>

datatype change_call = Begin | End | Record "int set"

fun run_calls :: "change_call list \<Rightarrow> item_state \<Rightarrow> item_state \<times> event list" where
  "run_calls [] s = (s, [])"
| "run_calls (Begin # cs) s = run_calls cs (begin_data_item_changes s)"
| "run_calls (End # cs) s =
     (let (s1, es1) = end_data_item_changes s; (s2, es2) = run_calls cs s1 in (s2, es1 @ es2))"
| "run_calls (Record changes # cs) s =
     (let (s1, es1) = notify_data_item_content_changed changes s;
          (s2, es2) = run_calls cs s1 in (s2, es1 @ es2))"

text \<open>
  \<open>nested cs k\<close>: the calls \<open>cs\<close> are properly paired \<open>begin\<close>/\<open>end\<close> calls (with recorded
  changes anywhere between them) when \<open>k\<close> transactions are already open around them.
\<close>

fun nested :: "change_call list \<Rightarrow> nat \<Rightarrow> bool" where
  "nested [] k = (k = 0)"
| "nested (Begin # cs) k = nested cs (Suc k)"
| "nested (End # cs) k = (0 < k \<and> nested cs (k - 1))"
| "nested (Record changes # cs) k = nested cs k"

fun recorded :: "change_call list \<Rightarrow> int set" where
  "recorded [] = {}"
| "recorded (Record changes # cs) = changes \<union> recorded cs"
| "recorded (c # cs) = recorded cs"

lemma run_calls_inner:
  "nested cs k \<Longrightarrow> data_item_change_count s = int k + m \<Longrightarrow> 1 \<le> m \<Longrightarrow>
   run_calls cs s =
     (s\<lparr>data_item_change_count := m, data_item_changes := data_item_changes s \<union> recorded cs\<rparr>, [])"
proof (induction cs arbitrary: k s)
  case Nil
  then show ?case by simp
next
  case (Cons c cs)
  show ?case
  proof (cases c)
    case Begin
    have "nested cs (Suc k)" using Cons.prems(1) Begin by simp
    moreover have "data_item_change_count (begin_data_item_changes s) = int (Suc k) + m"
      using Cons.prems(2) by (simp add: begin_data_item_changes_def)
    ultimately show ?thesis
      using Cons.IH [of "Suc k" "begin_data_item_changes s"] Cons.prems(3) Begin
      by (simp add: begin_data_item_changes_def)
  next
    case End
    have k: "0 < k" and n: "nested cs (k - 1)" using Cons.prems(1) End by simp_all
    let ?s1 = "s\<lparr>data_item_change_count := data_item_change_count s - 1\<rparr>"
    have ne: "data_item_change_count ?s1 \<noteq> 0" using Cons.prems(2,3) k by simp
    have e: "end_data_item_changes s = (?s1, [])"
      using ne by (simp add: end_data_item_changes_def Let_def)
    have c: "data_item_change_count ?s1 = int (k - 1) + m" using Cons.prems(2) k by simp
    show ?thesis
      using Cons.IH [OF n c Cons.prems(3)] End e by simp
  next
    case (Record changes)
    let ?s2 = "s\<lparr>data_item_changes := data_item_changes s \<union> changes\<rparr>"
    have e: "notify_data_item_content_changed changes s = (?s2, [])"
      using Cons.prems(2,3)
      by (simp add: notify_data_item_content_changed_def begin_data_item_changes_def
          end_data_item_changes_def Let_def)
    have n: "nested cs k" using Cons.prems(1) Record by simp
    have c: "data_item_change_count ?s2 = int k + m" using Cons.prems(2) by simp
    show ?thesis
      using Cons.IH [OF n c Cons.prems(3)] Record e by (simp add: Un_assoc)
  qed
qed

lemma run_calls_append:
  "run_calls (cs @ ds) s =
     (let (s1, es1) = run_calls cs s; (s2, es2) = run_calls ds s1 in (s2, es1 @ es2))"
proof (induction cs arbitrary: s)
  case Nil
  then show ?case by simp
next
  case (Cons c cs)
  then show ?case by (cases c) (simp_all add: Let_def split: prod.splits)
qed

text \<open>
  Claim C2. Take an item with no open transaction and nothing pending, and an outermost
  \<open>begin\<close> ... \<open>end\<close> pair around any properly nested calls. The listeners get exactly one
  \<open>data_item_content_changed\<close> message, sent by the last \<open>end\<close>; it carries the union of
  the change sets recorded in the span; and when that union holds \<open>DATA\<close> or \<open>SOURCE\<close> the
  cache is marked dirty before the message goes out. Nothing is pending afterwards and
  the depth is back at zero.
\<close>

theorem change_batching_one_notification:
  assumes "nested cs 0"
    and "data_item_change_count s = 0"
    and "data_item_changes s = {}"
  shows "run_calls (Begin # cs @ [End]) s =
     (if DATA \<in> recorded cs \<or> SOURCE \<in> recorded cs
      then (s\<lparr>cached_data_dirty := True\<rparr>, [ProcessorsChanged, CacheCleared, Notify (recorded cs)])
      else (s, [ProcessorsChanged, Notify (recorded cs)]))"
proof -
  let ?b = "begin_data_item_changes s"
  let ?m = "?b\<lparr>data_item_change_count := 1, data_item_changes := data_item_changes ?b \<union> recorded cs\<rparr>"
  have c: "data_item_change_count ?b = int 0 + 1"
    using assms(2) by (simp add: begin_data_item_changes_def)
  have inner: "run_calls cs ?b = (?m, [])"
    using run_calls_inner [OF assms(1) c] by simp
  have m: "?m = s\<lparr>data_item_change_count := 1, data_item_changes := recorded cs\<rparr>"
    using assms(3) by (simp add: begin_data_item_changes_def)
  have s0: "s\<lparr>data_item_change_count := 0, data_item_changes := {}\<rparr> = s"
    using assms(2,3) by simp
  have last: "run_calls [End] ?m =
     (if DATA \<in> recorded cs \<or> SOURCE \<in> recorded cs
      then (s\<lparr>cached_data_dirty := True\<rparr>, [ProcessorsChanged, CacheCleared, Notify (recorded cs)])
      else (s, [ProcessorsChanged, Notify (recorded cs)]))"
    unfolding m using s0
    by (simp add: end_data_item_changes_def clear_cached_data_def Let_def)
  show ?thesis
    using inner last by (simp add: run_calls_append)
qed

theorem change_batching_one_notification_witness:
  "nested [Begin, Record {DATA}, End, Record {METADATA}] 0
   \<and> data_item_change_count new_item_state = 0
   \<and> data_item_changes new_item_state = {}
   \<and> run_calls (Begin # [Begin, Record {DATA}, End, Record {METADATA}] @ [End]) new_item_state =
     (new_item_state\<lparr>cached_data_dirty := True\<rparr>,
      [ProcessorsChanged, CacheCleared, Notify {DATA, METADATA}])"
  using change_batching_one_notification
    [of "[Begin, Record {DATA}, End, Record {METADATA}]" new_item_state]
  by (simp add: new_item_state_def insert_commute)

section \<open>Residency: reference-counted load and unload\<close>

text \<open>
  \<open>__load_master_data\<close> reads the array back from the datastore when the item has master
  data that is not in memory.
\<close>

definition load_master_data :: "item_state \<Rightarrow> item_state \<times> event list" where
  "load_master_data s =
     (if has_master_data s \<and> datastore s \<noteq> None \<and> master_data s = None
      then (s\<lparr>master_data := datastore s\<rparr>, [LoadMasterData])
      else (s, []))"

text \<open>
  \<open>__unload_master_data\<close> drops the array and the cached data when no transaction is open,
  the item has master data and it has a datastore. Every call is an unload attempt.
\<close>

definition unload_master_data :: "item_state \<Rightarrow> item_state \<times> event list" where
  "unload_master_data s =
     (if transaction_count s = 0 \<and> has_master_data s \<and> datastore s \<noteq> None
      then (s\<lparr>master_data := None, cached_data := None\<rparr>, [UnloadAttempt])
      else (s, [UnloadAttempt]))"

text \<open>
  \<open>increment_data_ref_count\<close> returns the new count. Only the call that finds the count at
  zero goes on to the data source, or loads the master data when there is no source.
\<close>

fun increment_data_ref_count :: "data_item \<Rightarrow> int \<times> data_item \<times> event list" where
  "increment_data_ref_count (DataItem s None) =
     (let initial_count = data_ref_count s;
          s1 = s\<lparr>data_ref_count := initial_count + 1\<rparr> in
      if initial_count = 0
      then (let (s2, es) = load_master_data s1 in (initial_count + 1, DataItem s2 None, es))
      else (initial_count + 1, DataItem s1 None, []))"
| "increment_data_ref_count (DataItem s (Some src)) =
     (let initial_count = data_ref_count s;
          s1 = s\<lparr>data_ref_count := initial_count + 1\<rparr> in
      if initial_count = 0
      then (let (n, src1, es) = increment_data_ref_count src
            in (initial_count + 1, DataItem s1 (Some src1), es))
      else (initial_count + 1, DataItem s1 (Some src), []))"

text \<open>
  \<open>decrement_data_ref_count\<close> returns the new count. Only the call that brings the count
  to zero goes on to the data source, or tries to unload when there is no source.
\<close>

fun decrement_data_ref_count :: "data_item \<Rightarrow> int \<times> data_item \<times> event list" where
  "decrement_data_ref_count (DataItem s None) =
     (let s1 = s\<lparr>data_ref_count := data_ref_count s - 1\<rparr>;
          final_count = data_ref_count s1 in
      if final_count = 0
      then (let (s2, es) = unload_master_data s1 in (final_count, DataItem s2 None, es))
      else (final_count, DataItem s1 None, []))"
| "decrement_data_ref_count (DataItem s (Some src)) =
     (let s1 = s\<lparr>data_ref_count := data_ref_count s - 1\<rparr>;
          final_count = data_ref_count s1 in
      if final_count = 0
      then (let (n, src1, es) = decrement_data_ref_count src
            in (final_count, DataItem s1 (Some src1), es))
      else (final_count, DataItem s1 (Some src), []))"

text \<open>\<open>n\<close> calls in a row, keeping the item and everything the calls did.\<close>

fun acquire_n :: "nat \<Rightarrow> data_item \<Rightarrow> data_item \<times> event list" where
  "acquire_n 0 d = (d, [])"
| "acquire_n (Suc n) d =
     (let (c, d1, es1) = increment_data_ref_count d; (d2, es2) = acquire_n n d1
      in (d2, es1 @ es2))"

fun release_n :: "nat \<Rightarrow> data_item \<Rightarrow> data_item \<times> event list" where
  "release_n 0 d = (d, [])"
| "release_n (Suc n) d =
     (let (c, d1, es1) = decrement_data_ref_count d; (d2, es2) = release_n n d1
      in (d2, es1 @ es2))"

text \<open>The reference counts along the chain, the item's own first.\<close>

fun ref_counts :: "data_item \<Rightarrow> int list" where
  "ref_counts (DataItem s None) = [data_ref_count s]"
| "ref_counts (DataItem s (Some src)) = data_ref_count s # ref_counts src"

text \<open>What the two calls do to the counts, on the counts alone.\<close>

fun inc_counts :: "int list \<Rightarrow> int list" where
  "inc_counts [] = []"
| "inc_counts (c # cs) = (c + 1) # (if c = 0 then inc_counts cs else cs)"

fun dec_counts :: "int list \<Rightarrow> int list" where
  "dec_counts [] = []"
| "dec_counts (c # cs) = (c - 1) # (if c - 1 = 0 then dec_counts cs else cs)"

lemma ref_counts_increment:
  "ref_counts (fst (snd (increment_data_ref_count d))) = inc_counts (ref_counts d)"
  by (induction d rule: increment_data_ref_count.induct)
    (auto simp: Let_def load_master_data_def split: prod.splits)

lemma ref_counts_decrement:
  "ref_counts (fst (snd (decrement_data_ref_count d))) = dec_counts (ref_counts d)"
  by (induction d rule: decrement_data_ref_count.induct)
    (auto simp: Let_def unload_master_data_def split: prod.splits)

lemma dec_inc_counts: "dec_counts (inc_counts cs) = cs"
  by (induction cs) simp_all

lemma ref_counts_acquire_n:
  "ref_counts (fst (acquire_n n d)) = (inc_counts ^^ n) (ref_counts d)"
proof (induction n arbitrary: d)
  case 0
  then show ?case by simp
next
  case (Suc n)
  obtain c d1 es1 where i: "increment_data_ref_count d = (c, d1, es1)"
    by (cases "increment_data_ref_count d") auto
  have "ref_counts d1 = inc_counts (ref_counts d)"
    using ref_counts_increment [of d] i by simp
  then show ?case
    using Suc.IH [of d1] i by (auto simp: funpow_swap1 split: prod.splits)
qed

lemma ref_counts_release_n:
  "ref_counts (fst (release_n n d)) = (dec_counts ^^ n) (ref_counts d)"
proof (induction n arbitrary: d)
  case 0
  then show ?case by simp
next
  case (Suc n)
  obtain c d1 es1 where i: "decrement_data_ref_count d = (c, d1, es1)"
    by (cases "decrement_data_ref_count d") auto
  have "ref_counts d1 = dec_counts (ref_counts d)"
    using ref_counts_decrement [of d] i by simp
  then show ?case
    using Suc.IH [of d1] i by (auto simp: funpow_swap1 split: prod.splits)
qed

lemma dec_inc_counts_n: "(dec_counts ^^ n) ((inc_counts ^^ n) cs) = cs"
proof (induction n arbitrary: cs)
  case 0
  then show ?case by simp
next
  case (Suc n)
  have "(dec_counts ^^ Suc n) ((inc_counts ^^ Suc n) cs)
      = (dec_counts ^^ n) (dec_counts (inc_counts ((inc_counts ^^ n) cs)))"
    by (simp add: funpow_swap1)
  then show ?case using Suc.IH by (simp add: dec_inc_counts)
qed

lemma acquire_release_counts:
  "ref_counts (fst (release_n n (fst (acquire_n n d)))) = ref_counts d"
  by (simp add: ref_counts_release_n ref_counts_acquire_n dec_inc_counts_n)

lemma increment_source_count:
  "data_ref_count s = 0 \<Longrightarrow>
   \<exists>n src1 es. increment_data_ref_count (DataItem s (Some src)) =
       (1, DataItem (s\<lparr>data_ref_count := 1\<rparr>) (Some src1), es)
     \<and> increment_data_ref_count src = (n, src1, es)
     \<and> data_ref_count (own src1) = data_ref_count (own src) + 1"
proof -
  assume z: "data_ref_count s = 0"
  obtain n src1 es where i: "increment_data_ref_count src = (n, src1, es)"
    by (cases "increment_data_ref_count src") auto
  have "hd (ref_counts src1) = hd (ref_counts src) + 1"
    using ref_counts_increment [of src] i by (cases src rule: ref_counts.cases) simp_all
  moreover have "hd (ref_counts x) = data_ref_count (own x)" for x
    by (cases x rule: ref_counts.cases) simp_all
  ultimately have "data_ref_count (own src1) = data_ref_count (own src) + 1" by simp
  then show ?thesis using z i by (simp add: Let_def)
qed

lemma acquire_n_held:
  "1 \<le> data_ref_count s \<Longrightarrow>
   acquire_n n (DataItem s src) = (DataItem (s\<lparr>data_ref_count := data_ref_count s + int n\<rparr>) src, [])"
proof (induction n arbitrary: s)
  case 0
  then show ?case by simp
next
  case (Suc n)
  let ?s1 = "s\<lparr>data_ref_count := data_ref_count s + 1\<rparr>"
  have i: "increment_data_ref_count (DataItem s src) = (data_ref_count s + 1, DataItem ?s1 src, [])"
    using Suc.prems by (cases src) (simp_all add: Let_def)
  have "1 \<le> data_ref_count ?s1" using Suc.prems by simp
  from Suc.IH [OF this] show ?case using i by (simp add: add.assoc)
qed

lemma release_n_held:
  "int n < data_ref_count s \<Longrightarrow>
   release_n n (DataItem s src) = (DataItem (s\<lparr>data_ref_count := data_ref_count s - int n\<rparr>) src, [])"
proof (induction n arbitrary: s)
  case 0
  then show ?case by simp
next
  case (Suc n)
  let ?s1 = "s\<lparr>data_ref_count := data_ref_count s - 1\<rparr>"
  have i: "decrement_data_ref_count (DataItem s src) = (data_ref_count s - 1, DataItem ?s1 src, [])"
    using Suc.prems by (cases src) (simp_all add: Let_def)
  have "int n < data_ref_count ?s1" using Suc.prems by simp
  from Suc.IH [OF this] show ?case using i by (simp add: algebra_simps)
qed

lemma release_n_snoc:
  "release_n (Suc n) d =
     (let (d1, es1) = release_n n d; (c, d2, es2) = decrement_data_ref_count d1
      in (d2, es1 @ es2))"
proof (induction n arbitrary: d)
  case 0
  then show ?case by (simp split: prod.splits)
next
  case (Suc n)
  obtain c d1 es1 where i: "decrement_data_ref_count d = (c, d1, es1)"
    by (cases "decrement_data_ref_count d") auto
  have "release_n (Suc (Suc n)) d =
      (let (d2, es2) = release_n (Suc n) d1 in (d2, es1 @ es2))"
    using i by simp
  then show ?case
    unfolding Suc.IH [of d1] using i by (simp split: prod.splits)
qed

lemma increment_no_unload:
  "UnloadAttempt \<notin> set (snd (snd (increment_data_ref_count d)))"
  by (induction d rule: increment_data_ref_count.induct)
    (auto simp: Let_def load_master_data_def split: prod.splits if_splits)

lemma decrement_all_held_once:
  "\<forall>c \<in> set (ref_counts d). c = 1 \<Longrightarrow>
   count_list (snd (snd (decrement_data_ref_count d))) UnloadAttempt = 1"
  by (induction d rule: decrement_data_ref_count.induct)
    (auto simp: Let_def unload_master_data_def split: prod.splits if_splits)

lemma inc_counts_zeros:
  "\<forall>c \<in> set cs. c = 0 \<Longrightarrow> \<forall>c \<in> set (inc_counts cs). c = 1"
  by (induction cs) auto

text \<open>Two items used as concrete inputs: a fresh item, and a fresh item with it as data source.\<close>

definition source_example :: data_item where
  "source_example = DataItem new_item_state None"

definition derived_example :: data_item where
  "derived_example = DataItem new_item_state (Some source_example)"

text \<open>
  Claim C4, as stated, says that every \<open>increment_data_ref_count\<close> on an item with a data
  source adds one to the source's count. Two calls on a fresh derived item leave the
  source's count at 1: the second call finds the item's own count at 1 and stops there.
\<close>

theorem acquire_per_call_counterexample:
  "ref_counts derived_example = [0, 0]
   \<and> ref_counts (fst (acquire_n 1 derived_example)) = [1, 1]
   \<and> ref_counts (fst (acquire_n 2 derived_example)) = [2, 1]"
  by (simp add: derived_example_def source_example_def new_item_state_def
      numeral_2_eq_2 Let_def load_master_data_def)

text \<open>
  Claim C4, amended. For an item with a data source: the call that takes the item's own
  count from 0 to 1 adds exactly one to the source's count, and a call that finds the
  own count different from 0 leaves the source as it is. For every \<open>n\<close>, \<open>n\<close> acquires
  followed by \<open>n\<close> releases bring every count of the chain back to its value. When the
  counts of the whole chain start at 0 and \<open>n\<close> is positive, there is no unload attempt
  before the last release and exactly one in all, made by the last release.
\<close>

theorem acquire_release_ref_counts:
  "(data_ref_count s = 0 \<longrightarrow>
      (\<exists>src1 es. increment_data_ref_count (DataItem s (Some src)) =
          (1, DataItem (s\<lparr>data_ref_count := 1\<rparr>) (Some src1), es)
        \<and> data_ref_count (own src1) = data_ref_count (own src) + 1))
   \<and> (data_ref_count s \<noteq> 0 \<longrightarrow>
        increment_data_ref_count (DataItem s (Some src)) =
          (data_ref_count s + 1, DataItem (s\<lparr>data_ref_count := data_ref_count s + 1\<rparr>) (Some src), []))
   \<and> ref_counts (fst (release_n n (fst (acquire_n n (DataItem s (Some src))))))
        = ref_counts (DataItem s (Some src))
   \<and> (0 < n \<and> data_ref_count s = 0 \<and> (\<forall>c \<in> set (ref_counts src). c = 0) \<longrightarrow>
        count_list (snd (acquire_n n (DataItem s (Some src)))
            @ snd (release_n (n - 1) (fst (acquire_n n (DataItem s (Some src)))))) UnloadAttempt = 0
        \<and> count_list (snd (release_n n (fst (acquire_n n (DataItem s (Some src)))))) UnloadAttempt = 1)"
proof -
  let ?d = "DataItem s (Some src)"
  have on_first: "data_ref_count s = 0 \<longrightarrow>
      (\<exists>src1 es. increment_data_ref_count ?d =
          (1, DataItem (s\<lparr>data_ref_count := 1\<rparr>) (Some src1), es)
        \<and> data_ref_count (own src1) = data_ref_count (own src) + 1)"
    using increment_source_count [of s src] by blast
  have on_later: "data_ref_count s \<noteq> 0 \<longrightarrow>
      increment_data_ref_count ?d =
        (data_ref_count s + 1, DataItem (s\<lparr>data_ref_count := data_ref_count s + 1\<rparr>) (Some src), [])"
    by (simp add: Let_def)
  have restored: "ref_counts (fst (release_n n (fst (acquire_n n ?d)))) = ref_counts ?d"
    by (rule acquire_release_counts)
  have one_unload: "0 < n \<and> data_ref_count s = 0 \<and> (\<forall>c \<in> set (ref_counts src). c = 0) \<longrightarrow>
        count_list (snd (acquire_n n ?d)
            @ snd (release_n (n - 1) (fst (acquire_n n ?d)))) UnloadAttempt = 0
        \<and> count_list (snd (release_n n (fst (acquire_n n ?d)))) UnloadAttempt = 1"
  proof
    assume a: "0 < n \<and> data_ref_count s = 0 \<and> (\<forall>c \<in> set (ref_counts src). c = 0)"
    then obtain m where n: "n = Suc m" by (cases n) auto
    obtain k src1 es where
      i: "increment_data_ref_count ?d = (1, DataItem (s\<lparr>data_ref_count := 1\<rparr>) (Some src1), es)"
      and j: "increment_data_ref_count src = (k, src1, es)"
      using increment_source_count [of s src] a by blast
    have es: "count_list es UnloadAttempt = 0"
      using increment_no_unload [of src] j by (simp add: count_list_0_iff)
    have ones: "\<forall>c \<in> set (ref_counts src1). c = 1"
      using ref_counts_increment [of src] j inc_counts_zeros [of "ref_counts src"] a by simp
    let ?top = "DataItem (s\<lparr>data_ref_count := 1 + int m\<rparr>) (Some src1)"
    let ?low = "DataItem (s\<lparr>data_ref_count := 1\<rparr>) (Some src1)"
    have acq: "acquire_n n ?d = (?top, es)"
      using i acquire_n_held [of "s\<lparr>data_ref_count := 1\<rparr>" m "Some src1"] n by simp
    have rel: "release_n m ?top = (?low, [])"
      using release_n_held [of m "s\<lparr>data_ref_count := 1 + int m\<rparr>" "Some src1"] by simp
    have last: "count_list (snd (snd (decrement_data_ref_count ?low))) UnloadAttempt = 1"
      using decrement_all_held_once [of ?low] ones by simp
    have "release_n n ?top =
        (fst (snd (decrement_data_ref_count ?low)), snd (snd (decrement_data_ref_count ?low)))"
      unfolding n release_n_snoc rel by (simp split: prod.splits)
    then show "count_list (snd (acquire_n n ?d)
              @ snd (release_n (n - 1) (fst (acquire_n n ?d)))) UnloadAttempt = 0
          \<and> count_list (snd (release_n n (fst (acquire_n n ?d)))) UnloadAttempt = 1"
      using acq rel es last n by simp
  qed
  show ?thesis
    using on_first on_later restored one_unload by blast
qed

theorem acquire_release_ref_counts_witness:
  "data_ref_count new_item_state = 0
   \<and> (0::nat) < 2 \<and> ref_counts source_example = [0]
   \<and> ref_counts (fst (release_n 2 (fst (acquire_n 2 derived_example)))) = [0, 0]
   \<and> count_list (snd (release_n 2 (fst (acquire_n 2 derived_example)))) UnloadAttempt = 1"
  using acquire_release_ref_counts [of new_item_state source_example 2]
  by (simp add: derived_example_def source_example_def new_item_state_def)

section \<open>Derived data\<close>

text \<open>
  The loop of \<open>__get_data\<close> over the operations it is given: each one's \<open>process_data\<close>
  is called on the result of the one before.
\<close>

fun apply_operations :: "operation list \<Rightarrow> ndarray \<Rightarrow> ndarray \<times> event list" where
  "apply_operations [] data = (data, [])"
| "apply_operations (operation # rest) data =
     (let (data1, es) = apply_operations rest (process_data operation data)
      in (data1, ProcessData # es))"

fun chain_length :: "data_item \<Rightarrow> nat" where
  "chain_length (DataItem s None) = 0"
| "chain_length (DataItem s (Some src)) = Suc (chain_length src)"

lemma chain_length_increment [simp]:
  "chain_length (fst (snd (increment_data_ref_count d))) = chain_length d"
  by (induction d rule: increment_data_ref_count.induct)
    (auto simp: Let_def split: prod.splits)

lemma chain_length_decrement [simp]:
  "chain_length (fst (snd (decrement_data_ref_count d))) = chain_length d"
  by (induction d rule: decrement_data_ref_count.induct)
    (auto simp: Let_def split: prod.splits)

text \<open>
  \<open>__get_data\<close>. When the cache is dirty or empty the data is the master data if the item
  has it in memory, and otherwise the data of the data source, read inside a \<open>data_ref()\<close>
  of the source (an increment, the source's own \<open>__get_data\<close>, a decrement). If there is
  data, \<open>process_data\<close> of every operation in \<open>reversed(operations)\<close> is applied to it.
  \<open>__get_data_range_for_data\<close> then stores the range of the data in the storage cache
  when there is data of non-zero size and removes the entry otherwise. The result is
  stored in the cache and the dirty flag is reset. Otherwise the cached array is returned.
\<close>

definition has_data_range :: "ndarray option \<Rightarrow> bool" where
  "has_data_range data = (case data of Some a \<Rightarrow> prod_list (shape a) \<noteq> 0 | None \<Rightarrow> False)"

function get_data :: "data_item \<Rightarrow> ndarray option \<times> data_item \<times> event list" where
  "get_data (DataItem s src) =
     (if cached_data_dirty s \<or> cached_data s = None then
        (let data0 = (if has_master_data s then master_data s else None);
             (data1, src1, es1) =
               (if data0 = None then
                  (case src of
                     Some d \<Rightarrow>
                       (let d1 = fst (snd (increment_data_ref_count d));
                            ea = snd (snd (increment_data_ref_count d));
                            (r, d2, eb) = get_data d1;
                            (m, d3, ec) = decrement_data_ref_count d2
                        in (r, Some d3, ea @ eb @ ec))
                   | None \<Rightarrow> (None, None, []))
                else (data0, src, []));
             (data2, es2) =
               (case data1 of
                  Some a \<Rightarrow> (let (b, es) = apply_operations (rev (operations s)) a in (Some b, es))
                | None \<Rightarrow> (None, []));
             s1 = s\<lparr>data_range_cached := has_data_range data2, cached_data := data2,
                    cached_data_dirty := False\<rparr>
         in (data2, DataItem s1 src1, es1 @ es2))
      else (cached_data s, DataItem s src, []))"
  by pat_completeness auto
termination
  by (relation "measure chain_length") auto

declare get_data.simps [simp del]

text \<open>The branches of \<open>__get_data\<close>, one equation each.\<close>

lemma get_data_hit:
  "\<not> cached_data_dirty s \<Longrightarrow> cached_data s = Some c \<Longrightarrow>
   get_data (DataItem s src) = (Some c, DataItem s src, [])"
  by (simp add: get_data.simps)

lemma get_data_own:
  "cached_data_dirty s \<or> cached_data s = None \<Longrightarrow> has_master_data s \<Longrightarrow> master_data s = Some a \<Longrightarrow>
   get_data (DataItem s src) =
     (Some (fst (apply_operations (rev (operations s)) a)),
      DataItem (s\<lparr>data_range_cached := has_data_range (Some (fst (apply_operations (rev (operations s)) a))),
                  cached_data := Some (fst (apply_operations (rev (operations s)) a)),
                  cached_data_dirty := False\<rparr>) src,
      snd (apply_operations (rev (operations s)) a))"
  by (auto simp: get_data.simps Let_def has_data_range_def split: prod.splits)

lemma get_data_root_none:
  "cached_data_dirty s \<or> cached_data s = None \<Longrightarrow> \<not> (has_master_data s \<and> master_data s \<noteq> None) \<Longrightarrow>
   get_data (DataItem s None) =
     (None, DataItem (s\<lparr>data_range_cached := False, cached_data := None, cached_data_dirty := False\<rparr>) None, [])"
  by (auto simp: get_data.simps Let_def has_data_range_def split: prod.splits)

lemma get_data_source:
  "cached_data_dirty s \<or> cached_data s = None \<Longrightarrow> \<not> (has_master_data s \<and> master_data s \<noteq> None) \<Longrightarrow>
   get_data (DataItem s (Some d)) =
     (let d1 = fst (snd (increment_data_ref_count d));
          r = fst (get_data d1);
          d2 = fst (snd (get_data d1));
          d3 = fst (snd (decrement_data_ref_count d2));
          es1 = snd (snd (increment_data_ref_count d)) @ snd (snd (get_data d1))
                @ snd (snd (decrement_data_ref_count d2))
      in case r of
           None \<Rightarrow> (None, DataItem (s\<lparr>data_range_cached := False, cached_data := None, cached_data_dirty := False\<rparr>) (Some d3), es1)
         | Some a \<Rightarrow>
             (Some (fst (apply_operations (rev (operations s)) a)),
              DataItem (s\<lparr>data_range_cached := has_data_range (Some (fst (apply_operations (rev (operations s)) a))),
                  cached_data := Some (fst (apply_operations (rev (operations s)) a)),
                          cached_data_dirty := False\<rparr>) (Some d3),
              es1 @ snd (apply_operations (rev (operations s)) a)))"
  by (auto simp: get_data.simps Let_def has_data_range_def split: prod.splits option.splits)

text \<open>
  Two notions for the proof that a second \<open>__get_data\<close> repeats the first: \<open>wipe\<close> empties
  the caches of every item of a chain and resets its dirty flag, and \<open>no_data\<close> says that no
  item of the chain has master data in memory.
\<close>

fun wipe :: "data_item \<Rightarrow> data_item" where
  "wipe (DataItem s None) = DataItem (s\<lparr>data_range_cached := False, cached_data := None, cached_data_dirty := False\<rparr>) None"
| "wipe (DataItem s (Some src)) =
     DataItem (s\<lparr>data_range_cached := False, cached_data := None, cached_data_dirty := False\<rparr>) (Some (wipe src))"

fun no_data :: "data_item \<Rightarrow> bool" where
  "no_data (DataItem s None) = (\<not> (has_master_data s \<and> master_data s \<noteq> None))"
| "no_data (DataItem s (Some src)) =
     (\<not> (has_master_data s \<and> master_data s \<noteq> None) \<and> no_data src)"

lemma chain_length_wipe [simp]: "chain_length (wipe d) = chain_length d"
  by (induction d rule: wipe.induct) simp_all

lemma increment_no_process:
  "ProcessData \<notin> set (snd (snd (increment_data_ref_count d)))"
  by (induction d rule: chain_length.induct)
    (auto simp: Let_def load_master_data_def split: prod.splits if_splits)

lemma decrement_no_process:
  "ProcessData \<notin> set (snd (snd (decrement_data_ref_count d)))"
  by (induction d rule: chain_length.induct)
    (auto simp: Let_def unload_master_data_def split: prod.splits if_splits)

lemma no_data_increment:
  "no_data (fst (snd (increment_data_ref_count d))) \<Longrightarrow> no_data d"
  by (induction d rule: chain_length.induct)
    (auto simp: Let_def load_master_data_def split: prod.splits if_splits)

lemma increment_wipe:
  "fst (snd (increment_data_ref_count (wipe d))) = wipe (fst (snd (increment_data_ref_count d)))"
  by (induction d rule: chain_length.induct)
    (auto simp: Let_def load_master_data_def split: prod.splits if_splits)

lemma decrement_wipe_increment:
  "no_data (fst (snd (increment_data_ref_count d))) \<Longrightarrow>
   fst (snd (decrement_data_ref_count (wipe (fst (snd (increment_data_ref_count d)))))) = wipe d"
  by (induction d rule: chain_length.induct)
    (auto simp: Let_def load_master_data_def unload_master_data_def split: prod.splits if_splits)

lemma miss_of_None:
  assumes "fst (get_data (DataItem s src)) = None"
  shows "(cached_data_dirty s \<or> cached_data s = None)
         \<and> \<not> (has_master_data s \<and> master_data s \<noteq> None)"
proof -
  have m: "cached_data_dirty s \<or> cached_data s = None"
  proof (rule ccontr)
    assume "\<not> (cached_data_dirty s \<or> cached_data s = None)"
    then obtain c where "\<not> cached_data_dirty s" "cached_data s = Some c" by auto
    then have "fst (get_data (DataItem s src)) = Some c" by (simp add: get_data_hit)
    then show False using assms by simp
  qed
  have "\<not> (has_master_data s \<and> master_data s \<noteq> None)"
  proof
    assume "has_master_data s \<and> master_data s \<noteq> None"
    then obtain a where "has_master_data s" "master_data s = Some a" by auto
    then have "fst (get_data (DataItem s src)) \<noteq> None" using m by (simp add: get_data_own)
    then show False using assms by simp
  qed
  then show ?thesis using m by simp
qed

lemma source_of_None:
  assumes "fst (get_data (DataItem s (Some d))) = None"
  shows "fst (get_data (fst (snd (increment_data_ref_count d)))) = None"
proof -
  have m: "cached_data_dirty s \<or> cached_data s = None"
    and n: "\<not> (has_master_data s \<and> master_data s \<noteq> None)"
    using miss_of_None [OF assms] by simp_all
  show ?thesis
    using assms unfolding get_data_source [OF m n]
    by (simp add: Let_def split: option.splits)
qed

lemma get_data_None_no_data: "fst (get_data d) = None \<Longrightarrow> no_data d"
proof (induction "chain_length d" arbitrary: d rule: less_induct)
  case less
  show ?case
  proof (cases d rule: chain_length.cases)
    case (1 s)
    then show ?thesis using miss_of_None [of s None] less.prems by simp
  next
    case (2 s src)
    let ?d1 = "fst (snd (increment_data_ref_count src))"
    have "fst (get_data ?d1) = None" using source_of_None less.prems 2 by simp
    moreover have "chain_length ?d1 < chain_length d" using 2 by simp
    ultimately have "no_data ?d1" using less.hyps by blast
    then have "no_data src" by (rule no_data_increment)
    then show ?thesis using miss_of_None [of s "Some src"] less.prems 2 by simp
  qed
qed

lemma get_data_None_no_process:
  "fst (get_data d) = None \<Longrightarrow> ProcessData \<notin> set (snd (snd (get_data d)))"
proof (induction "chain_length d" arbitrary: d rule: less_induct)
  case less
  show ?case
  proof (cases d rule: chain_length.cases)
    case (1 s)
    have m: "cached_data_dirty s \<or> cached_data s = None"
      and n: "\<not> (has_master_data s \<and> master_data s \<noteq> None)"
      using miss_of_None [of s None] less.prems 1 by simp_all
    show ?thesis unfolding 1 get_data_root_none [OF m n] by simp
  next
    case (2 s src)
    have m: "cached_data_dirty s \<or> cached_data s = None"
      and n: "\<not> (has_master_data s \<and> master_data s \<noteq> None)"
      using miss_of_None [of s "Some src"] less.prems 2 by simp_all
    let ?d1 = "fst (snd (increment_data_ref_count src))"
    have r: "fst (get_data ?d1) = None" using source_of_None less.prems 2 by simp
    moreover have "chain_length ?d1 < chain_length d" using 2 by simp
    ultimately have "ProcessData \<notin> set (snd (snd (get_data ?d1)))" using less.hyps by blast
    then show ?thesis
      unfolding 2 get_data_source [OF m n]
      using r increment_no_process [of src]
        decrement_no_process [of "fst (snd (get_data ?d1))"]
      by (simp add: Let_def)
  qed
qed

lemma get_data_None_wipe:
  "fst (get_data d) = None \<Longrightarrow> fst (snd (get_data d)) = wipe d"
proof (induction "chain_length d" arbitrary: d rule: less_induct)
  case less
  show ?case
  proof (cases d rule: chain_length.cases)
    case (1 s)
    have m: "cached_data_dirty s \<or> cached_data s = None"
      and n: "\<not> (has_master_data s \<and> master_data s \<noteq> None)"
      using miss_of_None [of s None] less.prems 1 by simp_all
    show ?thesis unfolding 1 get_data_root_none [OF m n] by simp
  next
    case (2 s src)
    have m: "cached_data_dirty s \<or> cached_data s = None"
      and n: "\<not> (has_master_data s \<and> master_data s \<noteq> None)"
      using miss_of_None [of s "Some src"] less.prems 2 by simp_all
    let ?d1 = "fst (snd (increment_data_ref_count src))"
    have r: "fst (get_data ?d1) = None" using source_of_None less.prems 2 by simp
    have l: "chain_length ?d1 < chain_length d" using 2 by simp
    have w: "fst (snd (get_data ?d1)) = wipe ?d1" using less.hyps [OF l r] .
    have "no_data ?d1" using r by (rule get_data_None_no_data)
    then have "fst (snd (decrement_data_ref_count (wipe ?d1))) = wipe src"
      by (rule decrement_wipe_increment)
    then show ?thesis
      unfolding 2 get_data_source [OF m n]
      using r w by (simp add: Let_def)
  qed
qed

lemma get_data_wipe_None:
  "fst (get_data d) = None \<Longrightarrow> fst (get_data (wipe d)) = None"
proof (induction "chain_length d" arbitrary: d rule: less_induct)
  case less
  show ?case
  proof (cases d rule: chain_length.cases)
    case (1 s)
    have n: "\<not> (has_master_data s \<and> master_data s \<noteq> None)"
      using miss_of_None [of s None] less.prems 1 by simp
    show ?thesis unfolding 1 using n
      by (simp add: get_data_root_none)
  next
    case (2 s src)
    have n: "\<not> (has_master_data s \<and> master_data s \<noteq> None)"
      using miss_of_None [of s "Some src"] less.prems 2 by simp
    let ?d1 = "fst (snd (increment_data_ref_count src))"
    have r: "fst (get_data ?d1) = None" using source_of_None less.prems 2 by simp
    have l: "chain_length ?d1 < chain_length d" using 2 by simp
    have "fst (get_data (wipe ?d1)) = None" using less.hyps [OF l r] .
    then have "fst (get_data (fst (snd (increment_data_ref_count (wipe src))))) = None"
      by (simp add: increment_wipe)
    then show ?thesis
      unfolding 2 using n
      by (simp add: get_data_source Let_def)
  qed
qed

text \<open>
  Claim C7. A second \<open>__get_data\<close>, with nothing done to the item in between, returns
  the same result as the first, and no \<open>process_data\<close> of any operation in the chain is
  called during it.
\<close>

theorem get_data_twice:
  "fst (get_data (fst (snd (get_data d)))) = fst (get_data d)
   \<and> ProcessData \<notin> set (snd (snd (get_data (fst (snd (get_data d))))))"
proof (cases "fst (get_data d)")
  case None
  have w: "fst (snd (get_data d)) = wipe d" using None by (rule get_data_None_wipe)
  have n: "fst (get_data (wipe d)) = None" using None by (rule get_data_wipe_None)
  show ?thesis
    unfolding w using n None get_data_None_no_process [OF n] by simp
next
  case (Some a)
  obtain s src where d: "d = DataItem s src" by (cases d) auto
  obtain s1 src1 where d1: "fst (snd (get_data d)) = DataItem s1 src1"
    by (cases "fst (snd (get_data d))") auto
  have "cached_data s1 = Some a \<and> \<not> cached_data_dirty s1"
    using Some d1 unfolding d
    by (auto simp: get_data.simps Let_def split: prod.splits option.splits if_splits)
  then show ?thesis
    unfolding d1 using Some by (simp add: get_data_hit)
qed

text \<open>Concrete inputs: an array, an item holding it as master data, and operations.\<close>

definition array_example :: ndarray where
  "array_example = \<lparr>shape = [2], dtype = ''float64'', elems = [1, 2]\<rparr>"

definition negate :: "ndarray \<Rightarrow> ndarray" where
  "negate a = a\<lparr>elems := map uminus (elems a)\<rparr>"

definition add_one :: "ndarray \<Rightarrow> ndarray" where
  "add_one a = a\<lparr>elems := map (\<lambda>x. x + 1) (elems a)\<rparr>"

definition double :: "ndarray \<Rightarrow> ndarray" where
  "double a = a\<lparr>elems := map (\<lambda>x. 2 * x) (elems a)\<rparr>"

definition same_shape :: "nat list \<Rightarrow> string option \<Rightarrow> nat list \<times> string option" where
  "same_shape sh dt = (sh, dt)"

definition disabled_negate :: operation where
  "disabled_negate = \<lparr>enabled = False, process_data = negate,
     get_processed_data_shape_and_dtype = same_shape\<rparr>"

definition enabled_add_one :: operation where
  "enabled_add_one = \<lparr>enabled = True, process_data = add_one,
     get_processed_data_shape_and_dtype = same_shape\<rparr>"

definition enabled_double :: operation where
  "enabled_double = \<lparr>enabled = True, process_data = double,
     get_processed_data_shape_and_dtype = same_shape\<rparr>"

definition master_example :: data_item where
  "master_example = DataItem (new_item_state\<lparr>master_data := Some array_example,
     master_data_shape := Some [2], master_data_dtype := Some ''float64'',
     has_master_data := True, intrinsic_spatial_calibrations := [Calibration]\<rparr>) None"

definition processed_example :: data_item where
  "processed_example =
     DataItem (new_item_state\<lparr>operations := [disabled_negate]\<rparr>) (Some master_example)"

definition two_step_example :: data_item where
  "two_step_example =
     DataItem (new_item_state\<lparr>operations := [enabled_add_one, enabled_double]\<rparr>)
       (Some master_example)"

theorem get_data_twice_witness:
  "fst (get_data (fst (snd (get_data processed_example)))) = Some (negate array_example)
   \<and> ProcessData \<notin> set (snd (snd (get_data (fst (snd (get_data processed_example))))))"
proof -
  have "fst (get_data processed_example) = Some (negate array_example)"
    by (simp add: processed_example_def master_example_def new_item_state_def get_data.simps
        Let_def disabled_negate_def unload_master_data_def load_master_data_def)
  then show ?thesis
    using get_data_twice [of processed_example] by simp
qed

text \<open>
  Claim C1 says that \<open>get_data\<close> applies the operations in definition order and only the
  enabled ones, so that an item whose operations are all disabled returns the data of its
  source. \<open>__get_data\<close> calls \<open>process_data\<close> of every operation, enabled or not, and walks
  the list in reverse. With one disabled operation that negates the elements, the item's
  data is the negated array and not the source's; with the enabled operations "add one"
  and "double", in this order of definition, the elements 1, 2 become 3, 5 (doubled
  first), not 4, 6.
\<close>

theorem get_data_runs_every_operation_reversed:
  "map enabled (operations (own processed_example)) = [False]
   \<and> fst (get_data master_example) = Some array_example
   \<and> fst (get_data processed_example) = Some (negate array_example)
   \<and> negate array_example \<noteq> array_example
   \<and> fst (get_data two_step_example) = Some (add_one (double array_example))
   \<and> add_one (double array_example) \<noteq> double (add_one array_example)"
  by (simp add: processed_example_def two_step_example_def master_example_def
      new_item_state_def get_data.simps Let_def disabled_negate_def enabled_add_one_def
      enabled_double_def unload_master_data_def load_master_data_def
      negate_def add_one_def double_def array_example_def)

text \<open>
  An item whose master data is also in a datastore, with one reference held and an array
  in the cache that is not what the operations give.
\<close>

definition stored_example :: data_item where
  "stored_example = DataItem (new_item_state\<lparr>master_data := Some array_example,
     master_data_shape := Some [2], master_data_dtype := Some ''float64'',
     has_master_data := True, datastore := Some array_example,
     operations := [enabled_double], cached_data := Some array_example,
     cached_data_dirty := False, data_ref_count := 1\<rparr>) None"

text \<open>
  Claim C8. A release leaves the master data in memory when the item has no datastore,
  and when its count was not above zero before the release. Whenever a release does drop
  the master data, the cached data is dropped with it, and the next acquire reloads the
  array from the datastore and \<open>__get_data\<close> computes the data from the reloaded array,
  whatever the cache held before.
\<close>

theorem unload_on_final_release:
  assumes "decrement_data_ref_count (DataItem s src) = (c, DataItem s1 src1, es)"
  shows "(datastore s = None \<or> data_ref_count s \<le> 0 \<longrightarrow> master_data s1 = master_data s)
    \<and> (master_data s1 \<noteq> master_data s \<longrightarrow>
         cached_data s1 = None
         \<and> (\<exists>a. datastore s = Some a
              \<and> fst (get_data (fst (snd (increment_data_ref_count (DataItem s1 src1)))))
                  = Some (fst (apply_operations (rev (operations s)) a))))"
proof (cases src)
  case (Some d)
  then have "master_data s1 = master_data s"
    using assms by (auto simp: Let_def split: if_splits prod.splits)
  then show ?thesis by simp
next
  case None
  show ?thesis
  proof (cases "data_ref_count s = 1 \<and> transaction_count s = 0 \<and> has_master_data s
      \<and> datastore s \<noteq> None")
    case False
    then have "master_data s1 = master_data s"
      using assms None by (auto simp: Let_def unload_master_data_def split: if_splits)
    then show ?thesis by simp
  next
    case True
    then obtain a where a: "datastore s = Some a" by auto
    have s1: "s1 = s\<lparr>data_ref_count := 0, master_data := None, cached_data := None\<rparr>"
      and src1: "src1 = None"
      using assms None True by (auto simp: Let_def unload_master_data_def)
    let ?s2 = "s1\<lparr>data_ref_count := 1, master_data := Some a\<rparr>"
    have i: "fst (snd (increment_data_ref_count (DataItem s1 src1))) = DataItem ?s2 None"
      unfolding src1 using True a by (simp add: s1 Let_def load_master_data_def)
    have g: "fst (get_data (DataItem ?s2 None)) = Some (fst (apply_operations (rev (operations s)) a))"
      using True by (simp add: get_data_own s1)
    show ?thesis
      using True a i g by (simp add: s1)
  qed
qed

theorem unload_on_final_release_witness:
  "decrement_data_ref_count stored_example =
     (0, DataItem (new_item_state\<lparr>master_data_shape := Some [2],
        master_data_dtype := Some ''float64'', has_master_data := True,
        datastore := Some array_example, operations := [enabled_double],
        cached_data_dirty := False\<rparr>) None, [UnloadAttempt])
   \<and> fst (get_data (fst (snd (increment_data_ref_count
        (fst (snd (decrement_data_ref_count stored_example)))))))
       = Some (double array_example)"
proof -
  have d: "decrement_data_ref_count stored_example =
     (0, DataItem (new_item_state\<lparr>master_data_shape := Some [2],
        master_data_dtype := Some ''float64'', has_master_data := True,
        datastore := Some array_example, operations := [enabled_double],
        cached_data_dirty := False\<rparr>) None, [UnloadAttempt])"
    by (simp add: stored_example_def new_item_state_def Let_def unload_master_data_def)
  show ?thesis
    using d unload_on_final_release [OF d [unfolded stored_example_def]]
    by (simp add: new_item_state_def enabled_double_def)
qed

section \<open>Shape, calibrations and the two kinds of data\<close>

text \<open>The exceptions the modelled code raises.\<close>

datatype error =
    AssertionError | IndexError | AttributeError | TypeError | KeyError | ValueError
  | SystemExit

text \<open>
  The \<open>Image\<close> module is not part of the sources. The functions of it that the modelled
  methods call are parameters of the model.
\<close>

record image =
  spatial_shape_from_shape_and_dtype :: "nat list option \<Rightarrow> string option \<Rightarrow> nat list option"
  is_shape_and_dtype_1d :: "nat list option \<Rightarrow> string option \<Rightarrow> bool"
  is_shape_and_dtype_2d :: "nat list option \<Rightarrow> string option \<Rightarrow> bool"
  is_shape_and_dtype_3d :: "nat list option \<Rightarrow> string option \<Rightarrow> bool"

text \<open>
  The loop of \<open>__get_data_shape_and_dtype\<close>: the shape and dtype go through the transfer
  function of every enabled operation, in the order of the list.
\<close>

fun processed_shape_and_dtype ::
    "operation list \<Rightarrow> nat list \<Rightarrow> string option \<Rightarrow> nat list \<times> string option" where
  "processed_shape_and_dtype [] data_shape data_dtype = (data_shape, data_dtype)"
| "processed_shape_and_dtype (operation # rest) data_shape data_dtype =
     (if enabled operation
      then (let (data_shape1, data_dtype1) =
                  get_processed_data_shape_and_dtype operation data_shape data_dtype
            in processed_shape_and_dtype rest data_shape1 data_dtype1)
      else processed_shape_and_dtype rest data_shape data_dtype)"

definition apply_shape_operations ::
    "operation list \<Rightarrow> nat list option \<times> string option \<Rightarrow> nat list option \<times> string option" where
  "apply_shape_operations ops base =
     (case fst base of
        Some data_shape \<Rightarrow>
          (let (data_shape1, data_dtype1) = processed_shape_and_dtype ops data_shape (snd base)
           in (Some data_shape1, data_dtype1))
      | None \<Rightarrow> base)"

fun data_shape_and_dtype :: "data_item \<Rightarrow> nat list option \<times> string option" where
  "data_shape_and_dtype (DataItem s None) =
     apply_shape_operations (operations s)
       (if has_master_data s then (master_data_shape s, master_data_dtype s) else (None, None))"
| "data_shape_and_dtype (DataItem s (Some src)) =
     apply_shape_operations (operations s)
       (if has_master_data s then (master_data_shape s, master_data_dtype s)
        else data_shape_and_dtype src)"

definition spatial_shape :: "image \<Rightarrow> data_item \<Rightarrow> nat list option" where
  "spatial_shape img d =
     spatial_shape_from_shape_and_dtype img (fst (data_shape_and_dtype d)) (snd (data_shape_and_dtype d))"

text \<open>The number of spatial dimensions as \<open>sync_intrinsic_spatial_calibrations\<close> computes it.\<close>

definition ndim :: "image \<Rightarrow> data_item \<Rightarrow> nat" where
  "ndim img d = (case spatial_shape img d of Some sh \<Rightarrow> length sh | None \<Rightarrow> 0)"

text \<open>
  The two \<open>while\<close> statements of \<open>sync_intrinsic_spatial_calibrations\<close>: append identity calibrations
  while the list is too short; while it is too long, \<open>list.remove(list[-1])\<close>, which takes
  out the first entry equal to the last one.
\<close>

function append_calibrations :: "nat \<Rightarrow> calibration list \<Rightarrow> calibration list" where
  "append_calibrations n cs =
     (if length cs < n then append_calibrations n (cs @ [Calibration]) else cs)"
  by pat_completeness auto
termination
  by (relation "measure (\<lambda>(n, cs). n - length cs)") auto

function remove_calibrations :: "nat \<Rightarrow> calibration list \<Rightarrow> calibration list" where
  "remove_calibrations n cs =
     (if n < length cs then remove_calibrations n (remove1 (last cs) cs) else cs)"
  by pat_completeness auto
termination
proof (relation "measure (\<lambda>(n, cs). length cs)")
  show "wf (measure (\<lambda>(n, cs). length cs))" by simp
next
  fix n :: nat and cs :: "calibration list"
  assume "n < length cs"
  then have "cs \<noteq> []" by auto
  then have "last cs \<in> set cs" by simp
  then have "length (remove1 (last cs) cs) < length cs"
    using \<open>cs \<noteq> []\<close> by (simp add: length_remove1)
  then show "((n, remove1 (last cs) cs), (n, cs)) \<in> measure (\<lambda>(n, cs). length cs)" by simp
qed

declare append_calibrations.simps [simp del]
declare remove_calibrations.simps [simp del]

text \<open>
  Assigning the property \<open>intrinsic_spatial_calibrations\<close> runs its \<open>changed\<close> callback:
  a \<open>METADATA\<close> change and the calibration message.
\<close>

definition intrinsic_spatial_calibrations_changed :: "item_state \<Rightarrow> item_state \<times> event list" where
  "intrinsic_spatial_calibrations_changed s =
     (let (s1, es) = notify_data_item_content_changed {METADATA} s
      in (s1, es @ [CalibrationChanged]))"

definition sync_intrinsic_spatial_calibrations ::
    "image \<Rightarrow> data_item \<Rightarrow> data_item \<times> event list" where
  "sync_intrinsic_spatial_calibrations img d =
     (let n = ndim img d;
          spatial_calibrations = intrinsic_spatial_calibrations (own d) in
      if length spatial_calibrations \<noteq> n \<and> \<not> closed (own d) then
        (let cs = remove_calibrations n (append_calibrations n spatial_calibrations);
             (s1, es) = intrinsic_spatial_calibrations_changed
                          ((own d)\<lparr>intrinsic_spatial_calibrations := cs\<rparr>)
         in (DataItem s1 (data_source d), es))
      else (d, []))"

text \<open>
  The property \<open>data_range\<close>: the value in the storage cache if there is one, and
  otherwise the range of the data, read inside a \<open>data_ref()\<close> of the item itself.
\<close>

definition data_range :: "data_item \<Rightarrow> data_item \<times> event list" where
  "data_range d =
     (if data_range_cached (own d) then (d, [])
      else (let (n, d1, e1) = increment_data_ref_count d;
                (data, d2, e2) = get_data d1;
                d3 = DataItem ((own d2)\<lparr>data_range_cached := has_data_range data\<rparr>) (data_source d2);
                (m, d4, e3) = decrement_data_ref_count d3
            in (d4, e1 @ e2 @ e3)))"

text \<open>
  \<open>notify_set_property\<close>, as far as the item itself goes: a \<open>METADATA\<close> change. (The
  storage layer and the processors get the key and the value.)
\<close>

definition notify_set_property :: "item_state \<Rightarrow> item_state \<times> event list" where
  "notify_set_property s = notify_data_item_content_changed {METADATA} s"

text \<open>
  \<open>__set_master_data\<close>. The whole body runs inside \<open>data_item_changes()\<close>, so the \<open>end\<close>
  also runs when an assertion fails. The data must be \<open>None\<close> when the item is closed, and
  the data must be \<open>None\<close> or the item must have no data source. Then the master data, its
  shape and dtype and the flag are set and the calibrations are synchronised; if there is
  data, the storage layer is told about it and about the data range; last, a \<open>DATA\<close>
  change.
\<close>

definition set_master_data ::
    "image \<Rightarrow> ndarray option \<Rightarrow> data_item \<Rightarrow> error option \<times> data_item \<times> event list" where
  "set_master_data img data d =
     (let s0 = begin_data_item_changes (own d) in
      if (closed s0 \<and> data \<noteq> None) \<or> (data \<noteq> None \<and> data_source d \<noteq> None) then
        (let (s1, es) = end_data_item_changes s0
         in (Some AssertionError, DataItem s1 (data_source d), es))
      else
        (let s1 = s0\<lparr>master_data := data,
                      master_data_shape := map_option shape data,
                      master_data_dtype := map_option dtype data,
                      has_master_data := (data \<noteq> None)\<rparr>;
             (d2, es2) = sync_intrinsic_spatial_calibrations img (DataItem s1 (data_source d));
             (d3, es3) =
               (if master_data (own d2) \<noteq> None then
                  (let (d2a, ea) = data_range d2;
                       (s2b, eb) = notify_set_property (own d2a)
                   in (DataItem s2b (data_source d2a), ea @ eb))
                else (d2, []));
             (s4, es4) = notify_data_item_content_changed {DATA} (own d3);
             (s5, es5) = end_data_item_changes s4
         in (None, DataItem s5 (data_source d3), es2 @ es3 @ es4 @ es5)))"

text \<open>
  \<open>set_external_master_data\<close>, for a file that exists: shape, dtype and the flag are set
  with no check of the data source, the calibrations are synchronised, and the storage
  layer and the listeners are told as in \<open>__set_master_data\<close>.
\<close>

definition set_external_master_data ::
    "image \<Rightarrow> nat list \<Rightarrow> string \<Rightarrow> data_item \<Rightarrow> data_item \<times> event list" where
  "set_external_master_data img data_shape data_dtype d =
     (let s1 = (own d)\<lparr>master_data_shape := Some data_shape,
                            master_data_dtype := Some data_dtype,
                            has_master_data := True\<rparr>;
          (d2, es2) = sync_intrinsic_spatial_calibrations img (DataItem s1 (data_source d));
          (d3, es3) = data_range d2;
          (s4, es4) = notify_set_property (own d3);
          (s5, es5) = notify_data_item_content_changed {DATA} s4
      in (DataItem s5 (data_source d3), es2 @ es3 @ es4 @ es5))"

text \<open>
  \<open>data_item_content_changed\<close>, the message an item gets from its data source: the
  calibrations are synchronised, and changes that include \<open>DATA\<close> are passed on.
\<close>

definition data_item_content_changed ::
    "image \<Rightarrow> int set \<Rightarrow> data_item \<Rightarrow> data_item \<times> event list" where
  "data_item_content_changed img changes d =
     (let (d1, es1) = sync_intrinsic_spatial_calibrations img d in
      if DATA \<in> changes
      then (let (s2, es2) = notify_data_item_content_changed changes (own d1)
            in (DataItem s2 (data_source d1), es1 @ es2))
      else (d1, es1))"

text \<open>
  \<open>__set_data_source\<close>. A new source is refused when the item has master data. The old
  source, if any, is let go; the new one, if any, is attached and the item sends itself
  the source's \<open>data_item_content_changed\<close> with \<open>SOURCE\<close>. (\<open>sync_operations\<close> only hands
  the operations their input shape.)
\<close>

definition set_data_source ::
    "image \<Rightarrow> data_item option \<Rightarrow> data_item \<Rightarrow> error option \<times> data_item \<times> event list" where
  "set_data_source img new_source d =
     (if new_source \<noteq> None \<and> has_master_data (own d) then (Some AssertionError, d, [])
      else
        (case new_source of
           None \<Rightarrow> (None, DataItem (own d) None, [])
         | Some src \<Rightarrow>
             (let (d1, es) = data_item_content_changed img {SOURCE} (DataItem (own d) (Some src))
              in (None, d1, es))))"

text \<open>
  \<open>add_operation\<close>: the operation is appended to the relationship, and \<open>__insert_operation\<close>
  records a \<open>DATA\<close> change.
\<close>

definition add_operation :: "operation \<Rightarrow> data_item \<Rightarrow> data_item \<times> event list" where
  "add_operation operation d =
     (let s1 = (own d)\<lparr>operations := operations (own d) @ [operation]\<rparr>;
          (s2, es) = notify_data_item_content_changed {DATA} s1
      in (DataItem s2 (data_source d), es))"


text \<open>
  For the proofs about shape and calibrations: \<open>frame\<close> keeps, of every item of a chain,
  the fields that reference counting, \<open>__get_data\<close> and the change accumulator never write
  (shape, dtype and flag of the master data, operations, calibrations, \<open>closed\<close>, the
  transaction count and the datastore) and resets the others.
\<close>

definition frame_state :: "item_state \<Rightarrow> item_state" where
  "frame_state s = s\<lparr>master_data := None, cached_data := None, cached_data_dirty := False,
     data_range_cached := False, data_ref_count := 0, data_item_change_count := 0,
     data_item_changes := {}\<rparr>"

fun frame :: "data_item \<Rightarrow> data_item" where
  "frame (DataItem s None) = DataItem (frame_state s) None"
| "frame (DataItem s (Some src)) = DataItem (frame_state s) (Some (frame src))"

lemma frame_increment: "frame (fst (snd (increment_data_ref_count d))) = frame d"
  by (induction d rule: chain_length.induct)
    (auto simp: Let_def load_master_data_def frame_state_def split: prod.splits)

lemma frame_decrement: "frame (fst (snd (decrement_data_ref_count d))) = frame d"
  by (induction d rule: chain_length.induct)
    (auto simp: Let_def unload_master_data_def frame_state_def split: prod.splits)

lemma frame_get_data: "frame (fst (snd (get_data d))) = frame d"
proof (induction "chain_length d" arbitrary: d rule: less_induct)
  case less
  obtain s src where d: "d = DataItem s src" by (cases d) auto
  show ?case
  proof (cases "cached_data_dirty s \<or> cached_data s = None")
    case False
    then obtain c where "\<not> cached_data_dirty s" "cached_data s = Some c" by auto
    then show ?thesis unfolding d by (simp add: get_data_hit)
  next
    case miss: True
    show ?thesis
    proof (cases "has_master_data s \<and> master_data s \<noteq> None")
      case True
      then obtain a where "has_master_data s" "master_data s = Some a" by auto
      then show ?thesis unfolding d using miss
        by (cases src) (simp_all add: get_data_own frame_state_def)
    next
      case False
      show ?thesis
      proof (cases src)
        case None
        then show ?thesis unfolding d using miss False
          by (simp add: get_data_root_none frame_state_def)
      next
        case (Some e)
        let ?d1 = "fst (snd (increment_data_ref_count e))"
        have "chain_length ?d1 < chain_length d" unfolding d Some by simp
        then have "frame (fst (snd (get_data ?d1))) = frame ?d1" by (rule less.hyps)
        then have "frame (fst (snd (decrement_data_ref_count (fst (snd (get_data ?d1)))))) = frame e"
          by (simp add: frame_decrement frame_increment)
        then show ?thesis unfolding d Some get_data_source [OF miss False]
          by (simp add: Let_def frame_state_def split: option.splits)
      qed
    qed
  qed
qed

lemma frame_own: "frame (DataItem s src) = DataItem (frame_state s) (map_option frame src)"
  by (cases src) simp_all

lemma frame_data_range: "frame (fst (data_range d)) = frame d"
proof (cases "data_range_cached (own d)")
  case True
  then show ?thesis by (simp add: data_range_def)
next
  case False
  let ?d1 = "fst (snd (increment_data_ref_count d))"
  let ?d2 = "fst (snd (get_data ?d1))"
  let ?d3 = "DataItem ((own ?d2)\<lparr>data_range_cached := has_data_range (fst (get_data ?d1))\<rparr>) (data_source ?d2)"
  have "frame ?d3 = frame ?d2"
    by (cases ?d2) (simp add: frame_own frame_state_def)
  then have "frame (fst (snd (decrement_data_ref_count ?d3))) = frame d"
    by (simp add: frame_decrement frame_get_data frame_increment)
  then show ?thesis using False
    by (auto simp: data_range_def Let_def split: prod.splits)
qed

lemma frame_state_notify:
  "frame_state (fst (notify_data_item_content_changed changes s)) = frame_state s"
  by (simp add: notify_data_item_content_changed_def begin_data_item_changes_def
      end_data_item_changes_def clear_cached_data_def Let_def frame_state_def)

lemma frame_state_end: "frame_state (fst (end_data_item_changes s)) = frame_state s"
  by (simp add: end_data_item_changes_def clear_cached_data_def Let_def frame_state_def)

lemma frame_state_begin: "frame_state (begin_data_item_changes s) = frame_state s"
  by (simp add: begin_data_item_changes_def frame_state_def)

lemma data_shape_and_dtype_frame: "data_shape_and_dtype (frame d) = data_shape_and_dtype d"
  by (induction d rule: chain_length.induct) (simp_all add: frame_state_def)

lemma ndim_frame: "ndim img (frame d) = ndim img d"
  by (simp add: ndim_def spatial_shape_def data_shape_and_dtype_frame)

lemma length_append_calibrations: "length (append_calibrations n cs) = max n (length cs)"
  by (induction n cs rule: append_calibrations.induct)
    (subst append_calibrations.simps, auto)

lemma length_remove_calibrations: "length (remove_calibrations n cs) = min n (length cs)"
proof (induction n cs rule: remove_calibrations.induct)
  case (1 n cs)
  show ?case
  proof (cases "n < length cs")
    case True
    then have "cs \<noteq> []" by auto
    then have "length (remove1 (last cs) cs) = length cs - 1" by (simp add: length_remove1)
    then show ?thesis using 1 True by (subst remove_calibrations.simps) auto
  next
    case False
    then show ?thesis by (subst remove_calibrations.simps) auto
  qed
qed

lemma append_calibrations_replicate:
  "append_calibrations n cs = cs @ replicate (n - length cs) Calibration"
proof (induction n cs rule: append_calibrations.induct)
  case (1 n cs)
  show ?case
  proof (cases "length cs < n")
    case True
    then have "n - length cs = Suc (n - Suc (length cs))" by simp
    then show ?thesis using 1 True
      by (subst append_calibrations.simps) (simp add: replicate_app_Cons_same)
  next
    case False
    then show ?thesis by (subst append_calibrations.simps) simp
  qed
qed

lemma cals_frame: "intrinsic_spatial_calibrations (own (frame d)) = intrinsic_spatial_calibrations (own d)"
  by (cases d) (simp add: frame_own frame_state_def)

lemma has_master_data_frame: "has_master_data (own (frame d)) = has_master_data (own d)"
  by (cases d) (simp add: frame_own frame_state_def)

lemma data_source_frame: "data_source (frame d) = map_option frame (data_source d)"
  by (cases d) (simp add: frame_own)

lemma data_shape_and_dtype_cong:
  "has_master_data s1 = has_master_data s \<Longrightarrow> master_data_shape s1 = master_data_shape s \<Longrightarrow>
   master_data_dtype s1 = master_data_dtype s \<Longrightarrow> operations s1 = operations s \<Longrightarrow>
   data_shape_and_dtype (DataItem s1 src) = data_shape_and_dtype (DataItem s src)"
  by (cases src) simp_all

text \<open>The list \<open>sync_intrinsic_spatial_calibrations\<close> leaves in the item.\<close>

definition synced_calibrations :: "image \<Rightarrow> data_item \<Rightarrow> calibration list" where
  "synced_calibrations img d =
     (if length (intrinsic_spatial_calibrations (own d)) \<noteq> ndim img d \<and> \<not> closed (own d)
      then remove_calibrations (ndim img d)
             (append_calibrations (ndim img d) (intrinsic_spatial_calibrations (own d)))
      else intrinsic_spatial_calibrations (own d))"

lemma length_synced_calibrations:
  "\<not> closed (own d) \<Longrightarrow> length (synced_calibrations img d) = ndim img d"
  by (simp add: synced_calibrations_def length_remove_calibrations length_append_calibrations)

lemma frame_sync:
  "frame (fst (sync_intrinsic_spatial_calibrations img d)) =
   frame (DataItem ((own d)\<lparr>intrinsic_spatial_calibrations := synced_calibrations img d\<rparr>)
            (data_source d))"
proof (cases "length (intrinsic_spatial_calibrations (own d)) \<noteq> ndim img d \<and> \<not> closed (own d)")
  case True
  let ?cs = "remove_calibrations (ndim img d)
      (append_calibrations (ndim img d) (intrinsic_spatial_calibrations (own d)))"
  let ?s = "(own d)\<lparr>intrinsic_spatial_calibrations := ?cs\<rparr>"
  have "fst (sync_intrinsic_spatial_calibrations img d) =
      DataItem (fst (notify_data_item_content_changed {METADATA} ?s)) (data_source d)"
    using True
    by (simp add: sync_intrinsic_spatial_calibrations_def Let_def
        intrinsic_spatial_calibrations_changed_def split: prod.splits)
  then show ?thesis using True
    by (simp add: frame_own frame_state_notify synced_calibrations_def)
next
  case False
  then have "fst (sync_intrinsic_spatial_calibrations img d) = d"
    by (auto simp: sync_intrinsic_spatial_calibrations_def Let_def)
  moreover have "(own d)\<lparr>intrinsic_spatial_calibrations := synced_calibrations img d\<rparr> = own d"
    using False by (auto simp: synced_calibrations_def)
  ultimately show ?thesis by simp
qed

lemma synced_length_ndim:
  assumes "\<not> closed (own d)"
    and "frame d1 = frame (DataItem ((own d)\<lparr>intrinsic_spatial_calibrations := synced_calibrations img d\<rparr>)
            (data_source d))"
  shows "length (intrinsic_spatial_calibrations (own d1)) = ndim img d1
       \<and> intrinsic_spatial_calibrations (own d1) = synced_calibrations img d
       \<and> ndim img d1 = ndim img d"
proof -
  let ?e = "DataItem ((own d)\<lparr>intrinsic_spatial_calibrations := synced_calibrations img d\<rparr>) (data_source d)"
  have c: "intrinsic_spatial_calibrations (own d1) = synced_calibrations img d"
    using cals_frame [of d1] cals_frame [of ?e] assms(2) by simp
  have "data_shape_and_dtype ?e = data_shape_and_dtype (DataItem (own d) (data_source d))"
    by (rule data_shape_and_dtype_cong) simp_all
  then have "ndim img ?e = ndim img d" by (simp add: ndim_def spatial_shape_def)
  then have n: "ndim img d1 = ndim img d"
    using ndim_frame [of img d1] ndim_frame [of img ?e] assms(2) by simp
  show ?thesis using c n length_synced_calibrations [OF assms(1), of img] by simp
qed

lemma frame_set_master_data:
  assumes "fst (set_master_data img data d) = None"
  shows "frame (fst (snd (set_master_data img data d))) =
     frame (fst (sync_intrinsic_spatial_calibrations img
       (DataItem ((own d)\<lparr>master_data := data, master_data_shape := map_option shape data,
           master_data_dtype := map_option dtype data, has_master_data := (data \<noteq> None)\<rparr>)
          (data_source d))))"
proof -
  let ?s0 = "begin_data_item_changes (own d)"
  let ?s1 = "?s0\<lparr>master_data := data, master_data_shape := map_option shape data,
           master_data_dtype := map_option dtype data, has_master_data := (data \<noteq> None)\<rparr>"
  let ?t1 = "(own d)\<lparr>master_data := data, master_data_shape := map_option shape data,
           master_data_dtype := map_option dtype data, has_master_data := (data \<noteq> None)\<rparr>"
  have ok: "\<not> ((closed ?s0 \<and> data \<noteq> None) \<or> (data \<noteq> None \<and> data_source d \<noteq> None))"
  proof
    assume "(closed ?s0 \<and> data \<noteq> None) \<or> (data \<noteq> None \<and> data_source d \<noteq> None)"
    then have "set_master_data img data d =
        (let (s1, es) = end_data_item_changes ?s0
         in (Some AssertionError, DataItem s1 (data_source d), es))"
      unfolding set_master_data_def Let_def by (rule if_P)
    then show False using assms by (simp split: prod.splits)
  qed
  have run: "set_master_data img data d =
        (let s1 = ?s1;
             (d2, es2) = sync_intrinsic_spatial_calibrations img (DataItem s1 (data_source d));
             (d3, es3) =
               (if master_data (own d2) \<noteq> None then
                  (let (d2a, ea) = data_range d2;
                       (s2b, eb) = notify_set_property (own d2a)
                   in (DataItem s2b (data_source d2a), ea @ eb))
                else (d2, []));
             (s4, es4) = notify_data_item_content_changed {DATA} (own d3);
             (s5, es5) = end_data_item_changes s4
         in (None, DataItem s5 (data_source d3), es2 @ es3 @ es4 @ es5))"
    unfolding set_master_data_def Let_def using ok by (rule if_not_P)
  obtain d2 es2 where d2: "sync_intrinsic_spatial_calibrations img (DataItem ?s1 (data_source d)) = (d2, es2)"
    by (cases "sync_intrinsic_spatial_calibrations img (DataItem ?s1 (data_source d))") auto
  obtain d3 es3 where d3: "(if master_data (own d2) \<noteq> None then
                  (let (d2a, ea) = data_range d2;
                       (s2b, eb) = notify_set_property (own d2a)
                   in (DataItem s2b (data_source d2a), ea @ eb))
                else (d2, [])) = (d3, es3)"
    by (cases "(if master_data (own d2) \<noteq> None then
                  (let (d2a, ea) = data_range d2;
                       (s2b, eb) = notify_set_property (own d2a)
                   in (DataItem s2b (data_source d2a), ea @ eb))
                else (d2, []))") auto
  have f3: "frame d3 = frame d2"
  proof (cases "master_data (own d2) \<noteq> None")
    case False
    then show ?thesis using d3 by simp
  next
    case True
    have "d3 = DataItem (fst (notify_set_property (own (fst (data_range d2)))))
        (data_source (fst (data_range d2)))"
      using d3 True by (auto simp: Let_def split: prod.splits)
    then have "frame d3 = frame (fst (data_range d2))"
      by (cases "fst (data_range d2)")
        (simp add: frame_own notify_set_property_def frame_state_notify)
    then show ?thesis by (simp add: frame_data_range)
  qed
  have r: "fst (snd (set_master_data img data d)) =
      DataItem (fst (end_data_item_changes (fst (notify_data_item_content_changed {DATA} (own d3)))))
        (data_source d3)"
    unfolding run using d2 d3 by (simp add: Let_def split: prod.splits)
  have "frame (fst (snd (set_master_data img data d))) = frame d3"
    unfolding r by (cases d3) (simp add: frame_own frame_state_end frame_state_notify)
  also have "\<dots> = frame (fst (sync_intrinsic_spatial_calibrations img (DataItem ?s1 (data_source d))))"
    using f3 d2 by simp
  also have "\<dots> = frame (fst (sync_intrinsic_spatial_calibrations img (DataItem ?t1 (data_source d))))"
  proof -
    have n: "ndim img (DataItem ?s1 (data_source d)) = ndim img (DataItem ?t1 (data_source d))"
      using data_shape_and_dtype_cong [of ?s1 ?t1 "data_source d"]
      by (simp add: ndim_def spatial_shape_def begin_data_item_changes_def)
    have "synced_calibrations img (DataItem ?s1 (data_source d)) =
        synced_calibrations img (DataItem ?t1 (data_source d))"
      unfolding synced_calibrations_def n by (simp add: begin_data_item_changes_def)
    then show ?thesis
      by (simp add: frame_sync frame_own frame_state_def begin_data_item_changes_def)
  qed
  finally show ?thesis .
qed

lemma frame_set_external_master_data:
  "frame (fst (set_external_master_data img data_shape data_dtype d)) =
     frame (fst (sync_intrinsic_spatial_calibrations img
       (DataItem ((own d)\<lparr>master_data_shape := Some data_shape,
           master_data_dtype := Some data_dtype, has_master_data := True\<rparr>) (data_source d))))"
proof -
  let ?s1 = "(own d)\<lparr>master_data_shape := Some data_shape,
           master_data_dtype := Some data_dtype, has_master_data := True\<rparr>"
  let ?d2 = "fst (sync_intrinsic_spatial_calibrations img (DataItem ?s1 (data_source d)))"
  let ?d3 = "fst (data_range ?d2)"
  have "fst (set_external_master_data img data_shape data_dtype d) =
      DataItem (fst (notify_data_item_content_changed {DATA} (fst (notify_set_property (own ?d3)))))
        (data_source ?d3)"
    by (simp add: set_external_master_data_def Let_def split: prod.splits)
  then have "frame (fst (set_external_master_data img data_shape data_dtype d)) = frame ?d3"
    by (cases ?d3) (simp add: frame_own notify_set_property_def frame_state_notify)
  then show ?thesis by (simp add: frame_data_range)
qed

lemma frame_set_data_source:
  "fst (set_data_source img (Some src) d) = None \<Longrightarrow>
   frame (fst (snd (set_data_source img (Some src) d))) =
     frame (fst (sync_intrinsic_spatial_calibrations img (DataItem (own d) (Some src))))"
proof -
  assume a: "fst (set_data_source img (Some src) d) = None"
  then have m: "\<not> has_master_data (own d)"
    by (auto simp: set_data_source_def split: if_splits)
  let ?d1 = "fst (sync_intrinsic_spatial_calibrations img (DataItem (own d) (Some src)))"
  have "DATA \<notin> {SOURCE}" by (simp add: DATA_def SOURCE_def)
  then have "fst (snd (set_data_source img (Some src) d)) = ?d1"
    using m by (simp add: set_data_source_def data_item_content_changed_def Let_def
        split: prod.splits)
  then show ?thesis by simp
qed

lemma remove_calibrations_short: "length cs \<le> n \<Longrightarrow> remove_calibrations n cs = cs"
  by (subst remove_calibrations.simps) simp

lemma synced_calibrations_pad:
  "\<not> closed (own d) \<Longrightarrow> length (intrinsic_spatial_calibrations (own d)) \<le> ndim img d \<Longrightarrow>
   synced_calibrations img d = intrinsic_spatial_calibrations (own d)
     @ replicate (ndim img d - length (intrinsic_spatial_calibrations (own d))) Calibration"
  by (simp add: synced_calibrations_def append_calibrations_replicate remove_calibrations_short)

lemma processed_shape_and_dtype_disabled:
  "\<forall>operation \<in> set ops. \<not> enabled operation \<Longrightarrow>
   processed_shape_and_dtype ops data_shape data_dtype = (data_shape, data_dtype)"
  by (induction ops) simp_all

text \<open>
  Concrete inputs. An instance of the \<open>Image\<close> parameters for data that is not RGB: the
  spatial shape is the shape, known when shape and dtype are. A 2 by 2 array, and an
  enabled operation that keeps the first row, so that its output has one axis less.
\<close>

definition plain_spatial_shape :: "nat list option \<Rightarrow> string option \<Rightarrow> nat list option" where
  "plain_spatial_shape data_shape data_dtype =
     (if data_shape = None \<or> data_dtype = None then None else data_shape)"

definition plain_dimensions :: "nat \<Rightarrow> nat list option \<Rightarrow> string option \<Rightarrow> bool" where
  "plain_dimensions n data_shape data_dtype =
     (case plain_spatial_shape data_shape data_dtype of Some sh \<Rightarrow> length sh = n | None \<Rightarrow> False)"

definition image_example :: image where
  "image_example = \<lparr>spatial_shape_from_shape_and_dtype = plain_spatial_shape,
     is_shape_and_dtype_1d = plain_dimensions 1,
     is_shape_and_dtype_2d = plain_dimensions 2,
     is_shape_and_dtype_3d = plain_dimensions 3\<rparr>"

definition square_example :: ndarray where
  "square_example = \<lparr>shape = [2, 2], dtype = ''float64'', elems = [1, 2, 3, 4]\<rparr>"

definition first_row :: "ndarray \<Rightarrow> ndarray" where
  "first_row a = \<lparr>shape = tl (shape a), dtype = dtype a,
     elems = take (prod_list (tl (shape a))) (elems a)\<rparr>"

definition drop_axis :: "nat list \<Rightarrow> string option \<Rightarrow> nat list \<times> string option" where
  "drop_axis sh dt = (tl sh, dt)"

definition enabled_first_row :: operation where
  "enabled_first_row = \<lparr>enabled = True, process_data = first_row,
     get_processed_data_shape_and_dtype = drop_axis\<rparr>"

definition new_item :: data_item where
  "new_item = DataItem new_item_state None"

definition square_item :: data_item where
  "square_item = fst (snd (set_master_data image_example (Some square_example) new_item))"

lemmas example_defs = set_master_data_def set_external_master_data_def set_data_source_def
  data_item_content_changed_def add_operation_def Let_def
  begin_data_item_changes_def end_data_item_changes_def clear_cached_data_def
  notify_data_item_content_changed_def notify_set_property_def
  sync_intrinsic_spatial_calibrations_def intrinsic_spatial_calibrations_changed_def
  append_calibrations.simps remove_calibrations.simps ndim_def spatial_shape_def
  apply_shape_operations_def data_range_def get_data.simps has_data_range_def
  load_master_data_def unload_master_data_def DATA_def METADATA_def SOURCE_def
  image_example_def plain_spatial_shape_def plain_dimensions_def square_example_def
  array_example_def master_example_def new_item_def new_item_state_def square_item_def
  enabled_first_row_def drop_axis_def

text \<open>
  Claim C9 says that the length of the calibration list equals the spatial dimensionality
  after \<open>set_master_data\<close> and is re-established after every mutation that changes the
  data shape. \<open>sync_intrinsic_spatial_calibrations\<close> is there for that (``call this when
  data changes'') and \<open>__set_master_data\<close>, \<open>set_external_master_data\<close>, \<open>build\<close> and
  \<open>data_item_content_changed\<close> call it; \<open>__insert_operation\<close> records a \<open>DATA\<close> change
  and does not. After \<open>set_master_data\<close> with a 2 by 2 array the list has two entries for
  two dimensions; after adding the enabled operation that keeps the first row the item
  has one spatial dimension and still two calibrations.
\<close>

theorem add_operation_skips_calibration_sync:
  "fst (set_master_data image_example (Some square_example) new_item) = None
   \<and> length (intrinsic_spatial_calibrations (own square_item)) = 2
   \<and> ndim image_example square_item = 2
   \<and> length (intrinsic_spatial_calibrations
        (own (fst (add_operation enabled_first_row square_item)))) = 2
   \<and> ndim image_example (fst (add_operation enabled_first_row square_item)) = 1"
  by (simp add: example_defs)

text \<open>
  The paths that do synchronise. When \<open>set_master_data\<close> with an array completes, the
  calibration list is as long as the item has spatial dimensions (as the new data has
  when no operation is enabled), and a list that was not longer than that has been
  extended with identity calibrations. On an item that is not closed the same length
  holds after \<open>set_external_master_data\<close> and after a data source has been attached.
\<close>

lemma calibrations_follow_spatial_shape:
  "(fst (set_master_data img (Some a) d) = None \<longrightarrow>
      length (intrinsic_spatial_calibrations (own (fst (snd (set_master_data img (Some a) d)))))
        = ndim img (fst (snd (set_master_data img (Some a) d)))
      \<and> (length (intrinsic_spatial_calibrations (own d))
            \<le> ndim img (fst (snd (set_master_data img (Some a) d))) \<longrightarrow>
          intrinsic_spatial_calibrations (own (fst (snd (set_master_data img (Some a) d))))
            = intrinsic_spatial_calibrations (own d)
              @ replicate (ndim img (fst (snd (set_master_data img (Some a) d)))
                  - length (intrinsic_spatial_calibrations (own d))) Calibration)
      \<and> ((\<forall>operation \<in> set (operations (own d)). \<not> enabled operation) \<longrightarrow>
          ndim img (fst (snd (set_master_data img (Some a) d)))
            = (case spatial_shape_from_shape_and_dtype img (Some (shape a)) (Some (dtype a)) of
                 Some sh \<Rightarrow> length sh | None \<Rightarrow> 0)))
   \<and> (\<not> closed (own d) \<longrightarrow>
      length (intrinsic_spatial_calibrations
          (own (fst (set_external_master_data img data_shape data_dtype d))))
        = ndim img (fst (set_external_master_data img data_shape data_dtype d)))
   \<and> (\<not> closed (own d) \<and> fst (set_data_source img (Some src) d) = None \<longrightarrow>
      length (intrinsic_spatial_calibrations (own (fst (snd (set_data_source img (Some src) d)))))
        = ndim img (fst (snd (set_data_source img (Some src) d))))"
proof -
  let ?r = "fst (snd (set_master_data img (Some a) d))"
  let ?t = "DataItem ((own d)\<lparr>master_data := Some a, master_data_shape := map_option shape (Some a),
           master_data_dtype := map_option dtype (Some a), has_master_data := (Some a \<noteq> None)\<rparr>)
          (data_source d)"
  have master: "fst (set_master_data img (Some a) d) = None \<longrightarrow>
      length (intrinsic_spatial_calibrations (own ?r)) = ndim img ?r
      \<and> (length (intrinsic_spatial_calibrations (own d)) \<le> ndim img ?r \<longrightarrow>
          intrinsic_spatial_calibrations (own ?r) = intrinsic_spatial_calibrations (own d)
            @ replicate (ndim img ?r - length (intrinsic_spatial_calibrations (own d))) Calibration)
      \<and> ((\<forall>operation \<in> set (operations (own d)). \<not> enabled operation) \<longrightarrow>
          ndim img ?r
            = (case spatial_shape_from_shape_and_dtype img (Some (shape a)) (Some (dtype a)) of
                 Some sh \<Rightarrow> length sh | None \<Rightarrow> 0))"
  proof
    assume ok: "fst (set_master_data img (Some a) d) = None"
    have open_item: "\<not> closed (own d)" and root_item: "data_source d = None"
      using ok by (auto simp: set_master_data_def Let_def begin_data_item_changes_def
          split: if_splits prod.splits)
    have o: "\<not> closed (own ?t)" using open_item by simp
    have f: "frame ?r = frame (DataItem ((own ?t)\<lparr>intrinsic_spatial_calibrations :=
        synced_calibrations img ?t\<rparr>) (data_source ?t))"
      using frame_set_master_data [OF ok] by (simp only: frame_sync)
    note s = synced_length_ndim [OF o f]
    have pad: "length (intrinsic_spatial_calibrations (own d)) \<le> ndim img ?r \<longrightarrow>
        intrinsic_spatial_calibrations (own ?r) = intrinsic_spatial_calibrations (own d)
          @ replicate (ndim img ?r - length (intrinsic_spatial_calibrations (own d))) Calibration"
      using s synced_calibrations_pad [OF o, of img] by simp
    have dims: "(\<forall>operation \<in> set (operations (own d)). \<not> enabled operation) \<longrightarrow>
        ndim img ?r
          = (case spatial_shape_from_shape_and_dtype img (Some (shape a)) (Some (dtype a)) of
               Some sh \<Rightarrow> length sh | None \<Rightarrow> 0)"
    proof
      assume "\<forall>operation \<in> set (operations (own d)). \<not> enabled operation"
      then have "data_shape_and_dtype ?t = (Some (shape a), Some (dtype a))"
        using root_item
        by (simp add: apply_shape_operations_def processed_shape_and_dtype_disabled)
      then have "ndim img ?t =
          (case spatial_shape_from_shape_and_dtype img (Some (shape a)) (Some (dtype a)) of
             Some sh \<Rightarrow> length sh | None \<Rightarrow> 0)"
        by (simp add: ndim_def spatial_shape_def)
      then show "ndim img ?r =
          (case spatial_shape_from_shape_and_dtype img (Some (shape a)) (Some (dtype a)) of
             Some sh \<Rightarrow> length sh | None \<Rightarrow> 0)"
        using s by simp
    qed
    show "length (intrinsic_spatial_calibrations (own ?r)) = ndim img ?r
      \<and> (length (intrinsic_spatial_calibrations (own d)) \<le> ndim img ?r \<longrightarrow>
          intrinsic_spatial_calibrations (own ?r) = intrinsic_spatial_calibrations (own d)
            @ replicate (ndim img ?r - length (intrinsic_spatial_calibrations (own d))) Calibration)
      \<and> ((\<forall>operation \<in> set (operations (own d)). \<not> enabled operation) \<longrightarrow>
          ndim img ?r
            = (case spatial_shape_from_shape_and_dtype img (Some (shape a)) (Some (dtype a)) of
                 Some sh \<Rightarrow> length sh | None \<Rightarrow> 0))"
      using s pad dims by blast
  qed
  let ?x = "fst (set_external_master_data img data_shape data_dtype d)"
  let ?u = "DataItem ((own d)\<lparr>master_data_shape := Some data_shape,
           master_data_dtype := Some data_dtype, has_master_data := True\<rparr>) (data_source d)"
  have external: "\<not> closed (own d) \<longrightarrow>
      length (intrinsic_spatial_calibrations (own ?x)) = ndim img ?x"
  proof
    assume "\<not> closed (own d)"
    then have o: "\<not> closed (own ?u)" by simp
    have f: "frame ?x = frame (DataItem ((own ?u)\<lparr>intrinsic_spatial_calibrations :=
        synced_calibrations img ?u\<rparr>) (data_source ?u))"
      using frame_set_external_master_data [of img data_shape data_dtype d]
      by (simp only: frame_sync)
    show "length (intrinsic_spatial_calibrations (own ?x)) = ndim img ?x"
      using synced_length_ndim [OF o f] by blast
  qed
  let ?y = "fst (snd (set_data_source img (Some src) d))"
  let ?v = "DataItem (own d) (Some src)"
  have attach: "\<not> closed (own d) \<and> fst (set_data_source img (Some src) d) = None \<longrightarrow>
      length (intrinsic_spatial_calibrations (own ?y)) = ndim img ?y"
  proof
    assume a: "\<not> closed (own d) \<and> fst (set_data_source img (Some src) d) = None"
    then have o: "\<not> closed (own ?v)" by simp
    have f: "frame ?y = frame (DataItem ((own ?v)\<lparr>intrinsic_spatial_calibrations :=
        synced_calibrations img ?v\<rparr>) (data_source ?v))"
      using frame_set_data_source [of img src d] a by (simp only: frame_sync)
    show "length (intrinsic_spatial_calibrations (own ?y)) = ndim img ?y"
      using synced_length_ndim [OF o f] by blast
  qed
  show ?thesis using master external attach by blast
qed

lemma calibrations_follow_spatial_shape_example:
  "fst (set_master_data image_example (Some square_example) new_item) = None
   \<and> operations (own new_item) = []
   \<and> \<not> closed (own new_item)
   \<and> fst (set_data_source image_example (Some master_example) new_item) = None
   \<and> intrinsic_spatial_calibrations (own square_item) = [Calibration, Calibration]
   \<and> ndim image_example square_item = 2
   \<and> length (intrinsic_spatial_calibrations
         (own (fst (set_external_master_data image_example [2, 2] ''float64'' new_item))))
       = ndim image_example (fst (set_external_master_data image_example [2, 2] ''float64'' new_item))
   \<and> length (intrinsic_spatial_calibrations
         (own (fst (snd (set_data_source image_example (Some master_example) new_item)))))
       = ndim image_example (fst (snd (set_data_source image_example (Some master_example) new_item)))"
proof -
  have h: "fst (set_master_data image_example (Some square_example) new_item) = None
      \<and> operations (own new_item) = [] \<and> \<not> closed (own new_item)
      \<and> fst (set_data_source image_example (Some master_example) new_item) = None
      \<and> intrinsic_spatial_calibrations (own new_item) = []"
    by (simp add: example_defs)
  show ?thesis
    using h calibrations_follow_spatial_shape [of image_example square_example new_item
        "[2, 2]" "''float64''" master_example]
    by (simp add: square_item_def plain_spatial_shape_def image_example_def square_example_def
        numeral_2_eq_2)
qed

section \<open>Master data and data source exclude each other\<close>

text \<open>
  The two checked paths: \<open>__set_data_source\<close> refuses a source on an item with master
  data, \<open>__set_master_data\<close> refuses data on an item with a source, and both keep the
  invariant.
\<close>

lemma set_data_source_refused:
  "has_master_data (own d) \<Longrightarrow> set_data_source img (Some src) d = (Some AssertionError, d, [])"
  by (simp add: set_data_source_def)

lemma set_master_data_refused:
  assumes "data_source d \<noteq> None"
  shows "fst (set_master_data img (Some a) d) = Some AssertionError
    \<and> has_master_data (own (fst (snd (set_master_data img (Some a) d)))) = has_master_data (own d)
    \<and> data_source (fst (snd (set_master_data img (Some a) d))) = data_source d"
proof -
  let ?s0 = "begin_data_item_changes (own d)"
  have "(closed ?s0 \<and> Some a \<noteq> None) \<or> (Some a \<noteq> None \<and> data_source d \<noteq> None)"
    using assms by simp
  then have "set_master_data img (Some a) d =
        (let (s1, es) = end_data_item_changes ?s0
         in (Some AssertionError, DataItem s1 (data_source d), es))"
    unfolding set_master_data_def Let_def by (rule if_P)
  then show ?thesis
    by (simp add: end_data_item_changes_def begin_data_item_changes_def clear_cached_data_def
        Let_def split: prod.splits)
qed

text \<open>The invariant: an item does not have master data and a data source at once.\<close>

definition exclusive :: "data_item \<Rightarrow> bool" where
  "exclusive d = (\<not> (has_master_data (own d) \<and> data_source d \<noteq> None))"

lemma exclusive_set_data_source:
  "exclusive d \<Longrightarrow> exclusive (fst (snd (set_data_source img new_source d)))"
proof (cases new_source)
  case None
  then show ?thesis by (simp add: set_data_source_def exclusive_def)
next
  case (Some src)
  assume e: "exclusive d"
  show ?thesis
  proof (cases "has_master_data (own d)")
    case True
    then show ?thesis using e Some by (simp add: set_data_source_refused)
  next
    case False
    then have ok: "fst (set_data_source img (Some src) d) = None"
      by (simp add: set_data_source_def split: prod.splits)
    have "has_master_data (own (frame (fst (snd (set_data_source img (Some src) d)))))
        = has_master_data (own (frame (DataItem ((own (DataItem (own d) (Some src)))
            \<lparr>intrinsic_spatial_calibrations := synced_calibrations img (DataItem (own d) (Some src))\<rparr>)
            (data_source (DataItem (own d) (Some src))))))"
      using frame_set_data_source [OF ok] by (simp only: frame_sync)
    then have "\<not> has_master_data (own (fst (snd (set_data_source img (Some src) d))))"
      using False by (simp add: has_master_data_frame frame_own frame_state_def)
    then show ?thesis using Some by (simp add: exclusive_def)
  qed
qed

lemma exclusive_set_master_data:
  "exclusive d \<Longrightarrow> exclusive (fst (snd (set_master_data img data d)))"
proof (cases "fst (set_master_data img data d) = None")
  case True
  assume e: "exclusive d"
  let ?t = "DataItem ((own d)\<lparr>master_data := data, master_data_shape := map_option shape data,
           master_data_dtype := map_option dtype data, has_master_data := (data \<noteq> None)\<rparr>)
          (data_source d)"
  let ?r = "fst (snd (set_master_data img data d))"
  have f: "frame ?r = frame (DataItem ((own ?t)\<lparr>intrinsic_spatial_calibrations :=
        synced_calibrations img ?t\<rparr>) (data_source ?t))"
    using frame_set_master_data [OF True] by (simp only: frame_sync)
  have h: "has_master_data (own ?r) = (data \<noteq> None)"
    using arg_cong [OF f, of "\<lambda>x. has_master_data (own x)"]
    by (simp add: has_master_data_frame frame_own frame_state_def)
  have s: "(data_source ?r = None) = (data_source d = None)"
    using arg_cong [OF f, of "\<lambda>x. data_source x = None"]
    by (simp add: data_source_frame frame_own)
  have "data \<noteq> None \<longrightarrow> data_source d = None"
    using True by (auto simp: set_master_data_def Let_def split: if_splits prod.splits)
  then show ?thesis using h s by (auto simp: exclusive_def)
next
  case False
  assume e: "exclusive d"
  let ?s0 = "begin_data_item_changes (own d)"
  have "(closed ?s0 \<and> data \<noteq> None) \<or> (data \<noteq> None \<and> data_source d \<noteq> None)"
  proof (rule ccontr)
    assume n: "\<not> ((closed ?s0 \<and> data \<noteq> None) \<or> (data \<noteq> None \<and> data_source d \<noteq> None))"
    have "fst (set_master_data img data d) = None"
      unfolding set_master_data_def Let_def if_not_P [OF n] by (simp split: prod.splits)
    then show False using False by simp
  qed
  then have "set_master_data img data d =
        (let (s1, es) = end_data_item_changes ?s0
         in (Some AssertionError, DataItem s1 (data_source d), es))"
    unfolding set_master_data_def Let_def by (rule if_P)
  then show ?thesis using e
    by (simp add: exclusive_def end_data_item_changes_def begin_data_item_changes_def
        clear_cached_data_def Let_def split: prod.splits)
qed

text \<open>A fresh item with \<open>master_example\<close> attached as its data source.\<close>

definition attached_example :: data_item where
  "attached_example = fst (snd (set_data_source image_example (Some master_example) new_item))"

text \<open>
  Claim C3 says that an item never has master data and a data source at once, whatever
  the sequence of mutations. \<open>set_external_master_data\<close> sets \<open>__has_master_data\<close> without
  the check that \<open>__set_master_data\<close> makes: called on an item with a data source attached,
  it leaves an item that has both.
\<close>

theorem external_master_data_keeps_source:
  "fst (set_data_source image_example (Some master_example) new_item) = None
   \<and> has_master_data (own attached_example) = False
   \<and> data_source attached_example = Some master_example
   \<and> has_master_data (own (fst (set_external_master_data image_example [2] ''float64''
         attached_example))) = True
   \<and> data_source (fst (set_external_master_data image_example [2] ''float64''
         attached_example)) \<noteq> None"
  by (simp add: example_defs attached_example_def split: prod.splits)

section \<open>Reading one value of the cached data\<close>

text \<open>
  Indexing as numpy does it. One integer index on an array takes the sub-array at that
  place of the first axis (an array with no axes left stands for the scalar); an index
  below zero counts from the end; an index out of range, or any index on an array
  without axes, raises \<open>IndexError\<close>. \<open>a[i, j]\<close> indexes twice.
\<close>

definition index_axis :: "ndarray \<Rightarrow> int \<Rightarrow> error + ndarray" where
  "index_axis a i =
     (case shape a of
        [] \<Rightarrow> Inl IndexError
      | n # rest \<Rightarrow>
          if - int n \<le> i \<and> i < int n then
            (let j = nat (if i < 0 then i + int n else i);
                 m = prod_list rest
             in Inr \<lparr>shape = rest, dtype = dtype a, elems = take m (drop (j * m) (elems a))\<rparr>)
          else Inl IndexError)"

text \<open>\<open>pos[k]\<close> on the position the caller hands in.\<close>

definition sequence_item :: "int list \<Rightarrow> nat \<Rightarrow> error + int" where
  "sequence_item pos k = (if k < length pos then Inr (pos ! k) else Inl IndexError)"

definition is_data_1d :: "image \<Rightarrow> data_item \<Rightarrow> bool" where
  "is_data_1d img d =
     is_shape_and_dtype_1d img (fst (data_shape_and_dtype d)) (snd (data_shape_and_dtype d))"

definition is_data_2d :: "image \<Rightarrow> data_item \<Rightarrow> bool" where
  "is_data_2d img d =
     is_shape_and_dtype_2d img (fst (data_shape_and_dtype d)) (snd (data_shape_and_dtype d))"

definition is_data_3d :: "image \<Rightarrow> data_item \<Rightarrow> bool" where
  "is_data_3d img d =
     is_shape_and_dtype_3d img (fst (data_shape_and_dtype d)) (snd (data_shape_and_dtype d))"

text \<open>\<open>cached_data[pos[0]]\<close> and \<open>cached_data[pos[0], pos[1]]\<close>.\<close>

definition item_at_1 :: "ndarray \<Rightarrow> int list \<Rightarrow> error + ndarray option" where
  "item_at_1 a pos =
     (case sequence_item pos 0 of
        Inl e \<Rightarrow> Inl e
      | Inr i \<Rightarrow> (case index_axis a i of Inl e \<Rightarrow> Inl e | Inr b \<Rightarrow> Inr (Some b)))"

definition item_at_2 :: "ndarray \<Rightarrow> int list \<Rightarrow> error + ndarray option" where
  "item_at_2 a pos =
     (case sequence_item pos 0 of
        Inl e \<Rightarrow> Inl e
      | Inr i \<Rightarrow>
          (case sequence_item pos 1 of
             Inl e \<Rightarrow> Inl e
           | Inr j \<Rightarrow>
               (case index_axis a i of
                  Inl e \<Rightarrow> Inl e
                | Inr b \<Rightarrow> (case index_axis b j of Inl e \<Rightarrow> Inl e | Inr c \<Rightarrow> Inr (Some c)))))"

text \<open>
  \<open>get_data_value\<close>. The method assigns nothing and calls neither \<open>__get_data\<close> nor the
  reference counting, so the item comes back as it went in and nothing is done to the
  outside. The kind of data is taken from the shape query, the value from the cache.
\<close>

definition get_data_value ::
    "image \<Rightarrow> data_item \<Rightarrow> int list \<Rightarrow> (error + ndarray option) \<times> data_item \<times> event list" where
  "get_data_value img d pos =
     ((if is_data_1d img d then
         (case cached_data (own d) of Some a \<Rightarrow> item_at_1 a pos | None \<Rightarrow> Inr None)
       else if is_data_2d img d then
         (case cached_data (own d) of Some a \<Rightarrow> item_at_2 a pos | None \<Rightarrow> Inr None)
       else if is_data_3d img d then
         (case cached_data (own d) of Some a \<Rightarrow> item_at_2 a pos | None \<Rightarrow> Inr None)
       else Inr None),
      d, [])"

lemma take_one_drop: "k < length xs \<Longrightarrow> take (Suc 0) (drop k xs) = [xs ! k]"
  by (simp add: take_Suc_conv_app_nth)

lemma index_axis_last:
  assumes "shape a = [n]" and "length (elems a) = n" and "- int n \<le> i" and "i < int n"
  shows "index_axis a i = Inr \<lparr>shape = [], dtype = dtype a, elems = [elems a ! nat (i mod int n)]\<rparr>"
proof -
  let ?j = "nat (if i < 0 then i + int n else i)"
  have m: "i mod int n = (if i < 0 then i + int n else i)"
  proof (cases "i < 0")
    case True
    have lo: "0 \<le> i + int n" using assms(3) by linarith
    have hi: "i + int n < int n" using True by linarith
    have "(i + int n) mod int n = i + int n" using lo hi by (rule mod_pos_pos_trivial)
    then have "i mod int n = i + int n" unfolding mod_add_self2 .
    then show ?thesis using True by (simp only: if_True)
  next
    case False
    then show ?thesis using assms(4) by simp
  qed
  have "?j < length (elems a)" using assms by auto
  then have "take (Suc 0) (drop ?j (elems a)) = [elems a ! ?j]" by (rule take_one_drop)
  then show ?thesis using assms m by (simp add: index_axis_def Let_def)
qed

lemma index_axis_row:
  assumes "shape a = [h, w]" and "length (elems a) = h * w" and "- int h \<le> y" and "y < int h"
  shows "index_axis a y =
     Inr \<lparr>shape = [w], dtype = dtype a,
          elems = take w (drop (nat (y mod int h) * w) (elems a))\<rparr>"
proof -
  have "y mod int h = (if y < 0 then y + int h else y)"
  proof (cases "y < 0")
    case True
    have lo: "0 \<le> y + int h" using assms(3) by linarith
    have hi: "y + int h < int h" using True by linarith
    have "(y + int h) mod int h = y + int h" using lo hi by (rule mod_pos_pos_trivial)
    then have "y mod int h = y + int h" unfolding mod_add_self2 .
    then show ?thesis using True by (simp only: if_True)
  next
    case False
    then show ?thesis using assms(4) by simp
  qed
  then show ?thesis using assms by (simp add: index_axis_def Let_def)
qed

lemma item_at_2_element:
  assumes "shape a = [h, w]" and "length (elems a) = h * w"
    and "- int h \<le> y" and "y < int h" and "- int w \<le> x" and "x < int w"
  shows "item_at_2 a (y # x # rest) =
     Inr (Some \<lparr>shape = [], dtype = dtype a,
            elems = [elems a ! (nat (y mod int h) * w + nat (x mod int w))]\<rparr>)"
proof -
  let ?j = "nat (y mod int h)"
  let ?k = "nat (x mod int w)"
  let ?row = "\<lparr>shape = [w], dtype = dtype a, elems = take w (drop (?j * w) (elems a))\<rparr>"
  have h: "0 < int h" using assms(3,4) by linarith
  have w: "0 < int w" using assms(5,6) by linarith
  have j: "?j < h" using h by (simp add: nat_less_iff)
  have k: "?k < w" using w by (simp add: nat_less_iff)
  have "Suc ?j * w \<le> h * w" using j by (simp add: Suc_leI mult_le_mono1 del: mult_Suc)
  then have fits: "?j * w + w \<le> length (elems a)" using assms(2) by simp
  then have len: "length (elems ?row) = w" by simp
  have row: "index_axis a y = Inr ?row" using assms(1-4) by (rule index_axis_row)
  have "index_axis ?row x =
      Inr \<lparr>shape = [], dtype = dtype ?row, elems = [elems ?row ! ?k]\<rparr>"
    using _ len assms(5,6) by (rule index_axis_last) simp
  moreover have "elems ?row ! ?k = elems a ! (?j * w + ?k)"
    using k fits by simp
  ultimately show ?thesis using row by (simp add: item_at_2_def sequence_item_def)
qed

text \<open>Items with data in the cache: a line of two values, and the 2 by 2 array.\<close>

definition line_cached_example :: data_item where
  "line_cached_example = DataItem (new_item_state\<lparr>master_data := Some array_example,
     master_data_shape := Some [2], master_data_dtype := Some ''float64'',
     has_master_data := True, cached_data := Some array_example,
     cached_data_dirty := False\<rparr>) None"

definition square_cached_example :: data_item where
  "square_cached_example = DataItem (new_item_state\<lparr>master_data := Some square_example,
     master_data_shape := Some [2, 2], master_data_dtype := Some ''float64'',
     has_master_data := True, cached_data := Some square_example,
     cached_data_dirty := False\<rparr>) None"

text \<open>
  The array in the cache can be out of date: adding an operation marks it dirty and
  leaves it where it is. The 2 by 2 array stays in the cache of this item, whose shape
  query now gives one axis.
\<close>

definition stale_cached_example :: data_item where
  "stale_cached_example = fst (add_operation enabled_first_row square_cached_example)"

lemma index_axis_outside:
  "shape a = n # rest \<Longrightarrow> \<not> (- int n \<le> i \<and> i < int n) \<Longrightarrow> index_axis a i = Inl IndexError"
  by (auto simp: index_axis_def)

lemma index_axis_shape:
  "shape a = n # rest \<Longrightarrow> - int n \<le> i \<Longrightarrow> i < int n \<Longrightarrow>
   \<exists>b. index_axis a i = Inr b \<and> shape b = rest"
  by (simp add: index_axis_def Let_def)

lemma item_at_2_outside:
  assumes "shape a = [h, w]"
    and "\<not> (- int h \<le> y \<and> y < int h) \<or> \<not> (- int w \<le> x \<and> x < int w)"
  shows "item_at_2 a (y # x # others) = Inl IndexError"
proof (cases "- int h \<le> y \<and> y < int h")
  case False
  then have "index_axis a y = Inl IndexError"
    using assms(1) index_axis_outside [of a h "[w]" y] by simp
  then show ?thesis by (simp add: item_at_2_def sequence_item_def)
next
  case True
  then obtain b where b: "index_axis a y = Inr b" "shape b = [w]"
    using assms(1) index_axis_shape [of a h "[w]" y] by auto
  have "\<not> (- int w \<le> x \<and> x < int w)" using assms(2) True by blast
  then have "index_axis b x = Inl IndexError"
    using b(2) index_axis_outside [of b w "[]" x] by simp
  then show ?thesis using b(1) by (simp add: item_at_2_def sequence_item_def)
qed

text \<open>
  Claim C10, as stated, has \<open>get_data_value\<close> return the element of the cached array at
  the position whenever an array is cached, for every item and every position. With the
  two-element line in the cache, position 2 raises \<open>IndexError\<close>. With the out-of-date
  2 by 2 array in the cache of an item whose shape query says 1-d, position 0 returns the
  first row, not an element.
\<close>

theorem get_data_value_counterexample:
  "cached_data (own line_cached_example) = Some array_example
   \<and> is_data_1d image_example line_cached_example
   \<and> fst (get_data_value image_example line_cached_example [2]) = Inl IndexError
   \<and> cached_data (own stale_cached_example) = Some square_example
   \<and> is_data_1d image_example stale_cached_example
   \<and> fst (get_data_value image_example stale_cached_example [0]) =
       Inr (Some \<lparr>shape = [2], dtype = ''float64'', elems = [1, 2]\<rparr>)"
  by (simp add: get_data_value_def is_data_1d_def item_at_1_def sequence_item_def
      index_axis_def line_cached_example_def square_cached_example_def
      stale_cached_example_def example_defs)

text \<open>
  Claim C10, amended. \<open>get_data_value\<close> leaves the item as it is and neither computes nor
  loads anything. With nothing in the cache it returns \<open>None\<close>. With an array in the cache
  it returns what numpy gives for that array at \<open>pos[0]\<close> when the shape query says 1-d,
  and at \<open>pos[0], pos[1]\<close> when it says 2-d. When the cached array has the number of axes
  that the shape query says, this is the element at the position for a position within
  the array (a negative one counting from the end) and \<open>IndexError\<close> for a position
  outside it.
\<close>

theorem get_data_value_reads_cache:
  "snd (get_data_value img d pos) = (d, [])
   \<and> (cached_data (own d) = None \<longrightarrow> fst (get_data_value img d pos) = Inr None)
   \<and> (cached_data (own d) = Some a \<and> is_data_1d img d \<and> shape a = [n]
        \<and> length (elems a) = n \<and> pos = i # rest \<and> - int n \<le> i \<and> i < int n \<longrightarrow>
      fst (get_data_value img d pos) =
        Inr (Some \<lparr>shape = [], dtype = dtype a, elems = [elems a ! nat (i mod int n)]\<rparr>))
   \<and> (cached_data (own d) = Some b \<and> \<not> is_data_1d img d \<and> is_data_2d img d
        \<and> shape b = [h, w] \<and> length (elems b) = h * w \<and> pos = y # x # others
        \<and> - int h \<le> y \<and> y < int h \<and> - int w \<le> x \<and> x < int w \<longrightarrow>
      fst (get_data_value img d pos) =
        Inr (Some \<lparr>shape = [], dtype = dtype b,
               elems = [elems b ! (nat (y mod int h) * w + nat (x mod int w))]\<rparr>))
   \<and> (cached_data (own d) = Some a \<and> is_data_1d img d \<and> shape a = [n]
        \<and> pos = i # rest \<and> \<not> (- int n \<le> i \<and> i < int n) \<longrightarrow>
      fst (get_data_value img d pos) = Inl IndexError)
   \<and> (cached_data (own d) = Some b \<and> \<not> is_data_1d img d \<and> is_data_2d img d
        \<and> shape b = [h, w] \<and> pos = y # x # others
        \<and> (\<not> (- int h \<le> y \<and> y < int h) \<or> \<not> (- int w \<le> x \<and> x < int w)) \<longrightarrow>
      fst (get_data_value img d pos) = Inl IndexError)
   \<and> (cached_data (own d) = Some a \<and> is_data_1d img d \<longrightarrow>
      fst (get_data_value img d pos) = item_at_1 a pos)
   \<and> (cached_data (own d) = Some b \<and> \<not> is_data_1d img d \<and> is_data_2d img d \<longrightarrow>
      fst (get_data_value img d pos) = item_at_2 b pos)"
proof -
  have unchanged: "snd (get_data_value img d pos) = (d, [])"
    by (simp add: get_data_value_def)
  have empty: "cached_data (own d) = None \<longrightarrow> fst (get_data_value img d pos) = Inr None"
    by (simp add: get_data_value_def)
  have by_line: "cached_data (own d) = Some a \<and> is_data_1d img d \<longrightarrow>
      fst (get_data_value img d pos) = item_at_1 a pos"
    by (simp add: get_data_value_def)
  have by_plane: "cached_data (own d) = Some b \<and> \<not> is_data_1d img d \<and> is_data_2d img d \<longrightarrow>
      fst (get_data_value img d pos) = item_at_2 b pos"
    by (simp add: get_data_value_def)
  have line: "cached_data (own d) = Some a \<and> is_data_1d img d \<and> shape a = [n]
        \<and> length (elems a) = n \<and> pos = i # rest \<and> - int n \<le> i \<and> i < int n \<longrightarrow>
      fst (get_data_value img d pos) =
        Inr (Some \<lparr>shape = [], dtype = dtype a, elems = [elems a ! nat (i mod int n)]\<rparr>)"
  proof
    assume p: "cached_data (own d) = Some a \<and> is_data_1d img d \<and> shape a = [n]
        \<and> length (elems a) = n \<and> pos = i # rest \<and> - int n \<le> i \<and> i < int n"
    then have "index_axis a i =
        Inr \<lparr>shape = [], dtype = dtype a, elems = [elems a ! nat (i mod int n)]\<rparr>"
      using index_axis_last [of a n i] by simp
    then show "fst (get_data_value img d pos) =
        Inr (Some \<lparr>shape = [], dtype = dtype a, elems = [elems a ! nat (i mod int n)]\<rparr>)"
      using p by (simp add: get_data_value_def item_at_1_def sequence_item_def)
  qed
  have plane: "cached_data (own d) = Some b \<and> \<not> is_data_1d img d \<and> is_data_2d img d
        \<and> shape b = [h, w] \<and> length (elems b) = h * w \<and> pos = y # x # others
        \<and> - int h \<le> y \<and> y < int h \<and> - int w \<le> x \<and> x < int w \<longrightarrow>
      fst (get_data_value img d pos) =
        Inr (Some \<lparr>shape = [], dtype = dtype b,
               elems = [elems b ! (nat (y mod int h) * w + nat (x mod int w))]\<rparr>)"
  proof
    assume p: "cached_data (own d) = Some b \<and> \<not> is_data_1d img d \<and> is_data_2d img d
        \<and> shape b = [h, w] \<and> length (elems b) = h * w \<and> pos = y # x # others
        \<and> - int h \<le> y \<and> y < int h \<and> - int w \<le> x \<and> x < int w"
    then have "item_at_2 b (y # x # others) =
        Inr (Some \<lparr>shape = [], dtype = dtype b,
               elems = [elems b ! (nat (y mod int h) * w + nat (x mod int w))]\<rparr>)"
      using item_at_2_element [of b h w y x others] by simp
    then show "fst (get_data_value img d pos) =
        Inr (Some \<lparr>shape = [], dtype = dtype b,
               elems = [elems b ! (nat (y mod int h) * w + nat (x mod int w))]\<rparr>)"
      using p by (simp add: get_data_value_def)
  qed
  have off_line: "cached_data (own d) = Some a \<and> is_data_1d img d \<and> shape a = [n]
        \<and> pos = i # rest \<and> \<not> (- int n \<le> i \<and> i < int n) \<longrightarrow>
      fst (get_data_value img d pos) = Inl IndexError"
  proof
    assume p: "cached_data (own d) = Some a \<and> is_data_1d img d \<and> shape a = [n]
        \<and> pos = i # rest \<and> \<not> (- int n \<le> i \<and> i < int n)"
    then have "index_axis a i = Inl IndexError"
      using index_axis_outside [of a n "[]" i] by simp
    then show "fst (get_data_value img d pos) = Inl IndexError"
      using p by (simp add: get_data_value_def item_at_1_def sequence_item_def)
  qed
  have off_plane: "cached_data (own d) = Some b \<and> \<not> is_data_1d img d \<and> is_data_2d img d
        \<and> shape b = [h, w] \<and> pos = y # x # others
        \<and> (\<not> (- int h \<le> y \<and> y < int h) \<or> \<not> (- int w \<le> x \<and> x < int w)) \<longrightarrow>
      fst (get_data_value img d pos) = Inl IndexError"
  proof
    assume p: "cached_data (own d) = Some b \<and> \<not> is_data_1d img d \<and> is_data_2d img d
        \<and> shape b = [h, w] \<and> pos = y # x # others
        \<and> (\<not> (- int h \<le> y \<and> y < int h) \<or> \<not> (- int w \<le> x \<and> x < int w))"
    then have "item_at_2 b (y # x # others) = Inl IndexError"
      using item_at_2_outside [of b h w y x others] by blast
    then show "fst (get_data_value img d pos) = Inl IndexError"
      using p by (simp add: get_data_value_def)
  qed
  show ?thesis
    using unchanged empty line plane off_line off_plane by_line by_plane by blast
qed

theorem get_data_value_reads_cache_witness:
  "cached_data (own new_item) = None
   \<and> fst (get_data_value image_example new_item [0]) = Inr None
   \<and> cached_data (own line_cached_example) = Some array_example
   \<and> is_data_1d image_example line_cached_example
   \<and> fst (get_data_value image_example line_cached_example [- 1]) =
       Inr (Some \<lparr>shape = [], dtype = ''float64'', elems = [2]\<rparr>)
   \<and> fst (get_data_value image_example line_cached_example [- 3]) = Inl IndexError
   \<and> cached_data (own square_cached_example) = Some square_example
   \<and> \<not> is_data_1d image_example square_cached_example
   \<and> is_data_2d image_example square_cached_example
   \<and> fst (get_data_value image_example square_cached_example [1, 0]) =
       Inr (Some \<lparr>shape = [], dtype = ''float64'', elems = [3]\<rparr>)
   \<and> fst (get_data_value image_example square_cached_example [1, 2]) = Inl IndexError
   \<and> snd (get_data_value image_example square_cached_example [1, 0]) = (square_cached_example, [])"
proof -
  have k: "is_data_1d image_example line_cached_example
      \<and> \<not> is_data_1d image_example square_cached_example
      \<and> is_data_2d image_example square_cached_example"
    by (simp add: is_data_1d_def is_data_2d_def line_cached_example_def
        square_cached_example_def example_defs)
  have c: "cached_data (own new_item) = None
      \<and> cached_data (own line_cached_example) = Some array_example
      \<and> cached_data (own square_cached_example) = Some square_example"
    by (simp add: new_item_def new_item_state_def line_cached_example_def
        square_cached_example_def)
  have s: "shape array_example = [2] \<and> length (elems array_example) = 2
      \<and> dtype array_example = ''float64'' \<and> elems array_example ! nat (- 1 mod int 2) = 2
      \<and> shape square_example = [2, 2] \<and> length (elems square_example) = 2 * 2
      \<and> dtype square_example = ''float64''
      \<and> elems square_example ! (nat (1 mod int 2) * 2 + nat (0 mod int 2)) = 3"
    by (simp add: array_example_def square_example_def)
  show ?thesis
    using k c s
      get_data_value_reads_cache [of image_example new_item "[0]"]
      get_data_value_reads_cache [of image_example line_cached_example "[- 1]"
        array_example 2 "- 1" "[]"]
      get_data_value_reads_cache [of image_example line_cached_example "[- 3]"
        array_example 2 "- 3" "[]"]
      get_data_value_reads_cache [of image_example square_cached_example "[1, 0]"
        _ _ _ _ square_example 2 2 1 0 "[]"]
      get_data_value_reads_cache [of image_example square_cached_example "[1, 2]"
        _ _ _ _ square_example 2 2 1 2 "[]"]
    by simp
qed


section \<open>Computation graph of \<open>Symbolic.py\<close>\<close>

text \<open>
  The values that the serialised records and the node fields hold: Python's \<open>None\<close>,
  booleans, integers, floats, fractions, complex numbers, strings, lists, and dictionaries
  with string keys (as lists of items in the order of insertion).
\<close>

datatype pyvalue =
    PNone
  | PBool bool
  | PInt int
  | PFloat rat
  | PFraction rat
  | PComplex rat rat
  | PStr string
  | PList "pyvalue list"
  | PDict "(string \<times> pyvalue) list"

text \<open>
  The node classes. Every node has a \<open>uuid\<close> (its text) and \<open>inputs\<close>. A constant has
  \<open>__scalar\<close> and \<open>__scalar_type\<close>, which is \<open>None\<close> here when the attribute was never
  assigned. The four operation classes have \<open>__function_id\<close> and \<open>__args\<close>. Data and
  property nodes have an object specifier (and the property name) and the bound item, a
  handle that is \<open>None\<close> while the node is not bound.
\<close>

datatype data_node =
    ConstantDataNode string "data_node list" pyvalue "string option"
  | ScalarOperationDataNode string "data_node list" pyvalue pyvalue
  | UnaryOperationDataNode string "data_node list" pyvalue pyvalue
  | BinaryOperationDataNode string "data_node list" pyvalue pyvalue
  | FunctionOperationDataNode string "data_node list" pyvalue pyvalue
  | DataItemDataNode string "data_node list" pyvalue "nat option"
  | ReferenceDataNode string "data_node list" pyvalue
  | PropertyDataNode string "data_node list" pyvalue pyvalue "nat option"

text \<open>The keys of \<open>_function_map\<close> and \<open>_function2_map\<close>.\<close>

definition function_map :: "string list" where
  "function_map = [''abs'', ''neg'', ''pos'', ''add'', ''sub'', ''mul'', ''div'', ''truediv'',
     ''floordiv'', ''mod'', ''pow'', ''slice'', ''amin'', ''amax'', ''arange'', ''median'',
     ''average'', ''mean'', ''std'', ''var'', ''log'', ''log10'', ''log2'']"

definition function2_map :: "string list" where
  "function2_map = [''fft'', ''ifft'', ''autocorrelate'', ''crosscorrelate'', ''sobel'',
     ''laplace'', ''gaussian_blur'', ''median_filter'', ''uniform_filter'', ''transpose_flip'',
     ''crop'', ''slice_sum'', ''pick'', ''project'', ''resample_image'', ''histogram'',
     ''line_profile'']"

text \<open>
  \<open>_node_map[data_node_type]()\<close>: a node of the class, made with the default arguments.
  (Its random \<open>uuid\<close> is overwritten by \<open>read\<close> before anything reads it.)
\<close>

definition node_map :: "string \<Rightarrow> data_node option" where
  "node_map t =
     (if t = ''constant'' then Some (ConstantDataNode [] [] PNone None)
      else if t = ''scalar'' then Some (ScalarOperationDataNode [] [] PNone (PDict []))
      else if t = ''unary'' then Some (UnaryOperationDataNode [] [] PNone (PDict []))
      else if t = ''binary'' then Some (BinaryOperationDataNode [] [] PNone (PDict []))
      else if t = ''function'' then Some (FunctionOperationDataNode [] [] PNone (PDict []))
      else if t = ''property'' then Some (PropertyDataNode [] [] PNone (PStr ''None'') None)
      else if t = ''reference'' then Some (ReferenceDataNode [] [] PNone)
      else if t = ''data'' then Some (DataItemDataNode [] [] PNone None)
      else None)"

text \<open>Truth of a value in an \<open>if\<close>.\<close>

definition truthy :: "pyvalue \<Rightarrow> bool" where
  "truthy v =
     (case v of
        PNone \<Rightarrow> False
      | PBool b \<Rightarrow> b
      | PInt n \<Rightarrow> n \<noteq> 0
      | PFloat x \<Rightarrow> x \<noteq> 0
      | PFraction x \<Rightarrow> x \<noteq> 0
      | PComplex x y \<Rightarrow> x \<noteq> 0 \<or> y \<noteq> 0
      | PStr s \<Rightarrow> s \<noteq> []
      | PList xs \<Rightarrow> xs \<noteq> []
      | PDict kvs \<Rightarrow> kvs \<noteq> [])"

text \<open>
  \<open>uuid.UUID(d["uuid"])\<close>, for the text that \<open>write\<close> stores; \<open>for input_dict in
  d.get("inputs", list())\<close>, which goes through a list and stops with a \<open>TypeError\<close> on
  what is not a sequence of dictionaries.
\<close>

definition to_uuid :: "pyvalue \<Rightarrow> error + string" where
  "to_uuid v = (case v of PStr u \<Rightarrow> Inr u | PNone \<Rightarrow> Inl TypeError | _ \<Rightarrow> Inl AttributeError)"

definition input_dicts :: "pyvalue option \<Rightarrow> error + pyvalue list" where
  "input_dicts v =
     (case v of
        None \<Rightarrow> Inr []
      | Some (PList xs) \<Rightarrow> Inr xs
      | Some (PDict []) \<Rightarrow> Inr []
      | Some (PStr []) \<Rightarrow> Inr []
      | Some _ \<Rightarrow> Inl TypeError)"

text \<open>
  \<open>int\<close>, \<open>float\<close> and \<open>complex\<close> on the numbers; a string is taken as not numeric.
  \<open>complex(*d["value"])\<close> needs a sequence to unpack and raises \<open>TypeError\<close> on a
  complex number.
\<close>

definition truncate :: "rat \<Rightarrow> int" where
  "truncate x = (if 0 \<le> x then \<lfloor>x\<rfloor> else \<lceil>x\<rceil>)"

definition to_int :: "pyvalue \<Rightarrow> error + pyvalue" where
  "to_int v =
     (case v of
        PInt n \<Rightarrow> Inr (PInt n)
      | PBool b \<Rightarrow> Inr (PInt (if b then 1 else 0))
      | PFloat x \<Rightarrow> Inr (PInt (truncate x))
      | PFraction x \<Rightarrow> Inr (PInt (truncate x))
      | PStr s \<Rightarrow> Inl ValueError
      | _ \<Rightarrow> Inl TypeError)"

definition to_float :: "pyvalue \<Rightarrow> error + pyvalue" where
  "to_float v =
     (case v of
        PInt n \<Rightarrow> Inr (PFloat (of_int n))
      | PBool b \<Rightarrow> Inr (PFloat (if b then 1 else 0))
      | PFloat x \<Rightarrow> Inr (PFloat x)
      | PFraction x \<Rightarrow> Inr (PFloat x)
      | PStr s \<Rightarrow> Inl ValueError
      | _ \<Rightarrow> Inl TypeError)"

definition to_complex :: "pyvalue \<Rightarrow> error + pyvalue" where
  "to_complex v =
     (case v of
        PInt n \<Rightarrow> Inr (PComplex (of_int n) 0)
      | PBool b \<Rightarrow> Inr (PComplex (if b then 1 else 0) 0)
      | PFloat x \<Rightarrow> Inr (PComplex x 0)
      | PFraction x \<Rightarrow> Inr (PComplex x 0)
      | PComplex x y \<Rightarrow> Inr (PComplex x y)
      | _ \<Rightarrow> Inl TypeError)"

definition complex_of_arguments :: "pyvalue \<Rightarrow> error + pyvalue" where
  "complex_of_arguments v =
     (case v of
        PList [] \<Rightarrow> Inr (PComplex 0 0)
      | PList [PFloat x] \<Rightarrow> Inr (PComplex x 0)
      | PList [PInt n] \<Rightarrow> Inr (PComplex (of_int n) 0)
      | PList [PFloat x, PFloat y] \<Rightarrow> Inr (PComplex x y)
      | PList [PInt n, PInt m] \<Rightarrow> Inr (PComplex (of_int n) (of_int m))
      | PList [PFloat x, PInt m] \<Rightarrow> Inr (PComplex x (of_int m))
      | PList [PInt n, PFloat y] \<Rightarrow> Inr (PComplex (of_int n) y)
      | _ \<Rightarrow> Inl TypeError)"

text \<open>\<open>function_id in _function_map\<close>, and \<open>copy.copy(args if args is not None else dict())\<close>.\<close>

definition in_function_map :: "string list \<Rightarrow> pyvalue \<Rightarrow> error + bool" where
  "in_function_map keys v =
     (case v of
        PStr s \<Rightarrow> Inr (s \<in> set keys)
      | PList xs \<Rightarrow> Inl TypeError
      | PDict kvs \<Rightarrow> Inl TypeError
      | _ \<Rightarrow> Inr False)"

definition copy_args :: "pyvalue option \<Rightarrow> pyvalue" where
  "copy_args v = (case v of None \<Rightarrow> PDict [] | Some PNone \<Rightarrow> PDict [] | Some a \<Rightarrow> a)"

text \<open>
  What the \<open>read\<close> of each class does after the \<open>read\<close> of \<open>DataNode\<close>. An operation
  takes \<open>function_id\<close>, asserts that it is a key of its map, and takes \<open>args\<close>. A constant
  sets \<open>__scalar\<close> from \<open>value\<close> when \<open>scalar_type\<close> is one of three names, and never
  assigns \<open>__scalar_type\<close>.
\<close>

definition read_operation ::
    "string list \<Rightarrow> (string \<times> pyvalue) list \<Rightarrow> error + pyvalue \<times> pyvalue" where
  "read_operation keys kvs =
     (let function_id = (case map_of kvs ''function_id'' of None \<Rightarrow> PNone | Some v \<Rightarrow> v) in
      case in_function_map keys function_id of
        Inl e \<Rightarrow> Inl e
      | Inr False \<Rightarrow> Inl AssertionError
      | Inr True \<Rightarrow> Inr (function_id, copy_args (map_of kvs ''args'')))"

definition read_constant ::
    "(string \<times> pyvalue) list \<Rightarrow> pyvalue \<Rightarrow> error + pyvalue" where
  "read_constant kvs scalar =
     (let scalar_type = map_of kvs ''scalar_type'' in
      if scalar_type = Some (PStr ''integral'') then
        (case map_of kvs ''value'' of None \<Rightarrow> Inl KeyError | Some v \<Rightarrow> to_int v)
      else if scalar_type = Some (PStr ''real'') then
        (case map_of kvs ''value'' of None \<Rightarrow> Inl KeyError | Some v \<Rightarrow> to_float v)
      else if scalar_type = Some (PStr ''complex'') then
        (case map_of kvs ''value'' of None \<Rightarrow> Inl KeyError | Some v \<Rightarrow> complex_of_arguments v)
      else Inr scalar)"

definition read_fields ::
    "data_node \<Rightarrow> (string \<times> pyvalue) list \<Rightarrow> string \<Rightarrow> data_node list \<Rightarrow> error + data_node" where
  "read_fields node kvs uuid inputs =
     (case node of
        ConstantDataNode u0 i0 scalar scalar_type \<Rightarrow>
          (case read_constant kvs scalar of
             Inl e \<Rightarrow> Inl e
           | Inr scalar1 \<Rightarrow> Inr (ConstantDataNode uuid inputs scalar1 scalar_type))
      | ScalarOperationDataNode u0 i0 f0 a0 \<Rightarrow>
          (case read_operation function_map kvs of
             Inl e \<Rightarrow> Inl e
           | Inr (function_id, args) \<Rightarrow> Inr (ScalarOperationDataNode uuid inputs function_id args))
      | UnaryOperationDataNode u0 i0 f0 a0 \<Rightarrow>
          (case read_operation function_map kvs of
             Inl e \<Rightarrow> Inl e
           | Inr (function_id, args) \<Rightarrow> Inr (UnaryOperationDataNode uuid inputs function_id args))
      | BinaryOperationDataNode u0 i0 f0 a0 \<Rightarrow>
          (case read_operation function_map kvs of
             Inl e \<Rightarrow> Inl e
           | Inr (function_id, args) \<Rightarrow> Inr (BinaryOperationDataNode uuid inputs function_id args))
      | FunctionOperationDataNode u0 i0 f0 a0 \<Rightarrow>
          (case read_operation function2_map kvs of
             Inl e \<Rightarrow> Inl e
           | Inr (function_id, args) \<Rightarrow> Inr (FunctionOperationDataNode uuid inputs function_id args))
      | DataItemDataNode u0 i0 s0 bound_item \<Rightarrow>
          (case map_of kvs ''object_specifier'' of
             None \<Rightarrow> Inl KeyError
           | Some object_specifier \<Rightarrow> Inr (DataItemDataNode uuid inputs object_specifier bound_item))
      | ReferenceDataNode u0 i0 s0 \<Rightarrow> Inl TypeError
      | PropertyDataNode u0 i0 s0 p0 bound_item \<Rightarrow>
          (case map_of kvs ''object_specifier'' of
             None \<Rightarrow> Inl KeyError
           | Some object_specifier \<Rightarrow>
               (case map_of kvs ''property'' of
                  None \<Rightarrow> Inl KeyError
                | Some property \<Rightarrow>
                    Inr (PropertyDataNode uuid inputs object_specifier property bound_item))))"

text \<open>The records of the inputs are smaller than the record that holds them.\<close>

lemma size_map_of:
  "map_of kvs k = Some v \<Longrightarrow> size v < size (PDict kvs)"
  by (induction kvs) (auto split: if_splits)

lemma size_input_dicts:
  "input_dicts (map_of kvs k) = Inr xs \<Longrightarrow> size_list size xs < size (PDict kvs)"
  using size_map_of [of kvs k "PList xs"]
  by (auto simp: input_dicts_def split: option.splits pyvalue.splits list.splits)

text \<open>
  \<open>DataNode.factory\<close>, \<open>read\<close> and the loop of \<open>DataNode.read\<close> over the input records,
  which makes each input with \<open>factory\<close> and then reads the record into it once more.
  \<open>ReferenceDataNode.read\<close> calls \<open>NotImplemented\<close>, which is a \<open>TypeError\<close>.
\<close>

definition is_reference :: "data_node \<Rightarrow> bool" where
  "is_reference node = (case node of ReferenceDataNode u i s \<Rightarrow> True | _ \<Rightarrow> False)"

function factory :: "pyvalue \<Rightarrow> error + data_node"
  and read :: "data_node \<Rightarrow> pyvalue \<Rightarrow> error + data_node"
  and read_inputs :: "pyvalue list \<Rightarrow> error + data_node list" where
  "factory d =
     (case d of
        PDict kvs \<Rightarrow>
          (case map_of kvs ''data_node_type'' of
             None \<Rightarrow> Inl KeyError
           | Some (PStr t) \<Rightarrow>
               (case node_map t of None \<Rightarrow> Inl AssertionError | Some node \<Rightarrow> read node d)
           | Some _ \<Rightarrow> Inl AssertionError)
      | _ \<Rightarrow> Inl TypeError)"
| "read node d =
     (if is_reference node then Inl TypeError
      else
        (case d of
           PDict kvs \<Rightarrow>
             (case map_of kvs ''uuid'' of
                None \<Rightarrow> Inl KeyError
              | Some u \<Rightarrow>
                  (case to_uuid u of
                     Inl e \<Rightarrow> Inl e
                   | Inr uuid \<Rightarrow>
                       (case input_dicts (map_of kvs ''inputs'') of
                          Inl e \<Rightarrow> Inl e
                        | Inr xs \<Rightarrow>
                            (case read_inputs xs of
                               Inl e \<Rightarrow> Inl e
                             | Inr inputs \<Rightarrow> read_fields node kvs uuid inputs))))
         | _ \<Rightarrow> Inl TypeError))"
| "read_inputs [] = Inr []"
| "read_inputs (input_dict # rest) =
     (case factory input_dict of
        Inl e \<Rightarrow> Inl e
      | Inr node \<Rightarrow>
          (case read node input_dict of
             Inl e \<Rightarrow> Inl e
           | Inr node1 \<Rightarrow>
               (case read_inputs rest of
                  Inl e \<Rightarrow> Inl e
                | Inr nodes \<Rightarrow> Inr (node1 # nodes))))"
  by pat_completeness auto

termination
  by (relation "measure (\<lambda>x. case x of
        Inl d \<Rightarrow> 3 * size d + 2
      | Inr (Inl (node, d)) \<Rightarrow> 3 * size d + 1
      | Inr (Inr xs) \<Rightarrow> 3 * size_list size xs)")
    (auto dest: size_input_dicts)

text \<open>
  \<open>write\<close>. \<open>DataNode.write\<close> stores the \<open>uuid\<close> and, when there are any, the records
  of the inputs; each class then adds its own keys. A constant reads \<open>__scalar_type\<close>,
  which raises \<open>AttributeError\<close> when the attribute was never assigned.
\<close>

definition base_write :: "string \<Rightarrow> pyvalue list \<Rightarrow> (string \<times> pyvalue) list" where
  "base_write uuid ds =
     (''uuid'', PStr uuid) # (if ds \<noteq> [] then [(''inputs'', PList ds)] else [])"

definition write_operation ::
    "string \<Rightarrow> pyvalue \<Rightarrow> pyvalue \<Rightarrow> (string \<times> pyvalue) list \<Rightarrow> pyvalue" where
  "write_operation kind function_id args d =
     PDict (d @ [(''data_node_type'', PStr kind), (''function_id'', function_id)]
              @ (if truthy args then [(''args'', args)] else []))"

definition write_constant ::
    "pyvalue \<Rightarrow> string option \<Rightarrow> (string \<times> pyvalue) list \<Rightarrow> error + pyvalue" where
  "write_constant scalar scalar_type d =
     (case scalar_type of
        None \<Rightarrow> Inl AttributeError
      | Some t \<Rightarrow>
          (let d1 = d @ [(''data_node_type'', PStr ''constant''), (''scalar_type'', PStr t)] in
           if t = ''integral'' then
             (case to_int scalar of Inl e \<Rightarrow> Inl e | Inr v \<Rightarrow> Inr (PDict (d1 @ [(''value'', v)])))
           else if t = ''real'' then
             (case to_float scalar of Inl e \<Rightarrow> Inl e | Inr v \<Rightarrow> Inr (PDict (d1 @ [(''value'', v)])))
           else if t = ''complex'' then
             (case to_complex scalar of Inl e \<Rightarrow> Inl e | Inr v \<Rightarrow> Inr (PDict (d1 @ [(''value'', v)])))
           else Inr (PDict d1)))"

fun write_node :: "data_node \<Rightarrow> error + pyvalue"
  and write_inputs :: "data_node list \<Rightarrow> error + pyvalue list" where
  "write_node (ConstantDataNode uuid inputs scalar scalar_type) =
     (case write_inputs inputs of
        Inl e \<Rightarrow> Inl e
      | Inr ds \<Rightarrow> write_constant scalar scalar_type (base_write uuid ds))"
| "write_node (ScalarOperationDataNode uuid inputs function_id args) =
     (case write_inputs inputs of
        Inl e \<Rightarrow> Inl e
      | Inr ds \<Rightarrow> Inr (write_operation ''scalar'' function_id args (base_write uuid ds)))"
| "write_node (UnaryOperationDataNode uuid inputs function_id args) =
     (case write_inputs inputs of
        Inl e \<Rightarrow> Inl e
      | Inr ds \<Rightarrow> Inr (write_operation ''unary'' function_id args (base_write uuid ds)))"
| "write_node (BinaryOperationDataNode uuid inputs function_id args) =
     (case write_inputs inputs of
        Inl e \<Rightarrow> Inl e
      | Inr ds \<Rightarrow> Inr (write_operation ''binary'' function_id args (base_write uuid ds)))"
| "write_node (FunctionOperationDataNode uuid inputs function_id args) =
     (case write_inputs inputs of
        Inl e \<Rightarrow> Inl e
      | Inr ds \<Rightarrow> Inr (write_operation ''function'' function_id args (base_write uuid ds)))"
| "write_node (DataItemDataNode uuid inputs object_specifier bound_item) =
     (case write_inputs inputs of
        Inl e \<Rightarrow> Inl e
      | Inr ds \<Rightarrow>
          Inr (PDict (base_write uuid ds
                 @ [(''data_node_type'', PStr ''data''), (''object_specifier'', object_specifier)])))"
| "write_node (ReferenceDataNode uuid inputs object_specifier) = Inl TypeError"
| "write_node (PropertyDataNode uuid inputs object_specifier property bound_item) =
     (case write_inputs inputs of
        Inl e \<Rightarrow> Inl e
      | Inr ds \<Rightarrow>
          Inr (PDict (base_write uuid ds
                 @ [(''data_node_type'', PStr ''property''), (''object_specifier'', object_specifier),
                    (''property'', property)])))"
| "write_inputs [] = Inr []"
| "write_inputs (input # rest) =
     (case write_node input of
        Inl e \<Rightarrow> Inl e
      | Inr d \<Rightarrow> (case write_inputs rest of Inl e \<Rightarrow> Inl e | Inr ds \<Rightarrow> Inr (d # ds)))"

text \<open>\<open>ConstantDataNode(value)\<close>: the scalar type follows the kind of number.\<close>

definition scalar_type_of :: "pyvalue \<Rightarrow> string option" where
  "scalar_type_of v =
     (case v of
        PBool b \<Rightarrow> Some ''integral''
      | PInt n \<Rightarrow> Some ''integral''
      | PFraction x \<Rightarrow> Some ''rational''
      | PFloat x \<Rightarrow> Some ''real''
      | PComplex x y \<Rightarrow> Some ''complex''
      | _ \<Rightarrow> None)"

definition new_constant :: "string \<Rightarrow> pyvalue \<Rightarrow> data_node" where
  "new_constant uuid v = ConstantDataNode uuid [] v (scalar_type_of v)"

text \<open>
  Concrete input: the tree of \<open>a + 2\<close>, built directly from a data node and a constant,
  and the record that \<open>write\<close> gives for it.
\<close>

definition specifier_example :: pyvalue where
  "specifier_example = PDict [(''type'', PStr ''data_item''), (''version'', PInt 1),
     (''uuid'', PStr ''a'')]"

definition sum_example :: data_node where
  "sum_example = BinaryOperationDataNode ''n1''
     [DataItemDataNode ''n2'' [] specifier_example None, new_constant ''n3'' (PInt 2)]
     (PStr ''add'') (PDict [])"

definition sum_record :: pyvalue where
  "sum_record = PDict [(''uuid'', PStr ''n1''),
     (''inputs'', PList [
        PDict [(''uuid'', PStr ''n2''), (''data_node_type'', PStr ''data''),
               (''object_specifier'', specifier_example)],
        PDict [(''uuid'', PStr ''n3''), (''data_node_type'', PStr ''constant''),
               (''scalar_type'', PStr ''integral''), (''value'', PInt 2)]]),
     (''data_node_type'', PStr ''binary''), (''function_id'', PStr ''add'')]"

definition sum_reread :: data_node where
  "sum_reread = BinaryOperationDataNode ''n1''
     [DataItemDataNode ''n2'' [] specifier_example None, ConstantDataNode ''n3'' [] (PInt 2) None]
     (PStr ''add'') (PDict [])"

definition complex_record :: pyvalue where
  "complex_record = PDict [(''uuid'', PStr ''n4''), (''data_node_type'', PStr ''constant''),
     (''scalar_type'', PStr ''complex''), (''value'', PComplex 1 2)]"

lemmas read_defs = node_map_def is_reference_def to_uuid_def input_dicts_def read_fields_def
  read_operation_def read_constant_def in_function_map_def function_map_def function2_map_def
  copy_args_def to_int_def to_float_def to_complex_def complex_of_arguments_def Let_def

lemmas write_defs = base_write_def write_operation_def write_constant_def truthy_def
  new_constant_def scalar_type_of_def to_int_def to_float_def to_complex_def

text \<open>
  The trees for which reading is the inverse of writing: trees without constants and
  reference nodes, not bound, whose operations name a function of their map and hold a
  dictionary of arguments. \<open>alike n t\<close> says that \<open>n\<close> is an unbound node of the class of
  \<open>t\<close>, as the node that \<open>factory\<close> reads the record into is.
\<close>

definition known_function :: "string list \<Rightarrow> pyvalue \<Rightarrow> bool" where
  "known_function keys function_id =
     (case function_id of PStr s \<Rightarrow> s \<in> set keys | _ \<Rightarrow> False)"

definition is_dict :: "pyvalue \<Rightarrow> bool" where
  "is_dict v = (case v of PDict kvs \<Rightarrow> True | _ \<Rightarrow> False)"

fun serializable :: "data_node \<Rightarrow> bool" where
  "serializable (ConstantDataNode uuid inputs scalar scalar_type) = False"
| "serializable (ScalarOperationDataNode uuid inputs function_id args) =
     (known_function function_map function_id \<and> is_dict args \<and> list_all serializable inputs)"
| "serializable (UnaryOperationDataNode uuid inputs function_id args) =
     (known_function function_map function_id \<and> is_dict args \<and> list_all serializable inputs)"
| "serializable (BinaryOperationDataNode uuid inputs function_id args) =
     (known_function function_map function_id \<and> is_dict args \<and> list_all serializable inputs)"
| "serializable (FunctionOperationDataNode uuid inputs function_id args) =
     (known_function function2_map function_id \<and> is_dict args \<and> list_all serializable inputs)"
| "serializable (DataItemDataNode uuid inputs object_specifier bound_item) =
     (bound_item = None \<and> list_all serializable inputs)"
| "serializable (ReferenceDataNode uuid inputs object_specifier) = False"
| "serializable (PropertyDataNode uuid inputs object_specifier property bound_item) =
     (bound_item = None \<and> list_all serializable inputs)"

fun alike :: "data_node \<Rightarrow> data_node \<Rightarrow> bool" where
  "alike (ScalarOperationDataNode u i f a) (ScalarOperationDataNode u1 i1 f1 a1) = True"
| "alike (UnaryOperationDataNode u i f a) (UnaryOperationDataNode u1 i1 f1 a1) = True"
| "alike (BinaryOperationDataNode u i f a) (BinaryOperationDataNode u1 i1 f1 a1) = True"
| "alike (FunctionOperationDataNode u i f a) (FunctionOperationDataNode u1 i1 f1 a1) = True"
| "alike (DataItemDataNode u i s b) (DataItemDataNode u1 i1 s1 b1) = (b = None)"
| "alike (PropertyDataNode u i s p b) (PropertyDataNode u1 i1 s1 p1 b1) = (b = None)"
| "alike n t = False"

definition round_trip :: "data_node \<Rightarrow> bool" where
  "round_trip t =
     (\<exists>r. write_node t = Inr r \<and> factory r = Inr t \<and> (\<forall>n. alike n t \<longrightarrow> read n r = Inr t))"

lemma alike_refl: "serializable t \<Longrightarrow> alike t t"
  by (cases t) simp_all

lemma round_trip_inputs:
  "\<forall>t \<in> set ts. serializable t \<longrightarrow> round_trip t \<Longrightarrow> list_all serializable ts \<Longrightarrow>
   \<exists>rs. write_inputs ts = Inr rs \<and> read_inputs rs = Inr ts"
proof (induction ts)
  case Nil
  then show ?case by simp
next
  case (Cons t ts)
  then obtain rs where rs: "write_inputs ts = Inr rs" "read_inputs rs = Inr ts" by auto
  have "round_trip t" and st: "serializable t" using Cons.prems by simp_all
  then obtain r where r: "write_node t = Inr r" "factory r = Inr t" "read t r = Inr t"
    unfolding round_trip_def using alike_refl [OF st] by blast
  show ?case using rs r by simp
qed

lemma input_dicts_base_write:
  "input_dicts (map_of (base_write uuid rs @ more_items) ''inputs'') =
     (if rs = [] then input_dicts (map_of more_items ''inputs'') else Inr rs)"
  by (simp add: base_write_def input_dicts_def)

lemma uuid_base_write: "map_of (base_write uuid rs @ more_items) ''uuid'' = Some (PStr uuid)"
  by (simp add: base_write_def)

lemma other_base_write:
  "k \<noteq> ''uuid'' \<Longrightarrow> k \<noteq> ''inputs'' \<Longrightarrow>
   map_of (base_write uuid rs @ more_items) k = map_of more_items k"
  by (simp add: base_write_def)


lemma round_trip_operation:
  assumes w: "write_inputs inputs = Inr rs" and r: "read_inputs rs = Inr inputs"
    and f: "known_function keys function_id" and a: "is_dict args"
  shows "input_dicts (map_of (base_write uuid rs @ [(''data_node_type'', PStr kind),
            (''function_id'', function_id)] @ (if truthy args then [(''args'', args)] else []))
            ''inputs'') = Inr rs
       \<and> read_operation keys (base_write uuid rs @ [(''data_node_type'', PStr kind),
            (''function_id'', function_id)] @ (if truthy args then [(''args'', args)] else []))
           = Inr (function_id, args)"
proof -
  obtain s where s: "function_id = PStr s" "s \<in> set keys"
    using f by (auto simp: known_function_def split: pyvalue.splits)
  obtain kvs where k: "args = PDict kvs" using a by (auto simp: is_dict_def split: pyvalue.splits)
  show ?thesis
    using s k
    by (auto simp: base_write_def input_dicts_def read_operation_def in_function_map_def
        copy_args_def truthy_def Let_def)
qed

lemma read_from_record:
  assumes "\<not> is_reference n" and "map_of kvs ''uuid'' = Some (PStr uuid)"
    and "input_dicts (map_of kvs ''inputs'') = Inr rs" and "read_inputs rs = Inr inputs"
  shows "read n (PDict kvs) = read_fields n kvs uuid inputs"
  using assms by (simp add: to_uuid_def)

text \<open>
  Every such tree is written without error, and \<open>factory\<close> makes the same tree again
  from its record.
\<close>

lemma round_trip_serializable: "serializable t \<Longrightarrow> round_trip t"
proof (induction t)
  case (ConstantDataNode uuid inputs scalar scalar_type)
  then show ?case by simp
next
  case (ScalarOperationDataNode uuid inputs function_id args)
  then have "\<forall>t \<in> set inputs. serializable t \<longrightarrow> round_trip t"
    and "list_all serializable inputs" by simp_all
  then obtain rs where w: "write_inputs inputs = Inr rs" and r: "read_inputs rs = Inr inputs"
    using round_trip_inputs by blast
  have f: "known_function function_map function_id" and a: "is_dict args"
    using ScalarOperationDataNode.prems by simp_all
  define kvs where "kvs = base_write uuid rs @ [(''data_node_type'', PStr ''scalar''),
      (''function_id'', function_id)] @ (if truthy args then [(''args'', args)] else [])"
  have o: "input_dicts (map_of kvs ''inputs'') = Inr rs"
      "read_operation function_map kvs = Inr (function_id, args)"
    using round_trip_operation [OF w r f a, of uuid "''scalar''"] unfolding kvs_def by simp_all
  have u: "map_of kvs ''uuid'' = Some (PStr uuid)"
    unfolding kvs_def by (rule uuid_base_write)
  have t: "map_of kvs ''data_node_type'' = Some (PStr ''scalar'')"
    unfolding kvs_def by (simp add: base_write_def)
  have wr: "write_node (ScalarOperationDataNode uuid inputs function_id args) = Inr (PDict kvs)"
    using w by (simp add: write_operation_def kvs_def)
  have rd: "read n (PDict kvs) = Inr (ScalarOperationDataNode uuid inputs function_id args)"
    if "alike n (ScalarOperationDataNode uuid inputs function_id args)" for n
    using that read_from_record [OF _ u o(1) r, of n] o(2)
    by (cases n) (simp_all add: is_reference_def read_fields_def)
  have "factory (PDict kvs) = Inr (ScalarOperationDataNode uuid inputs function_id args)"
    using t rd [of "ScalarOperationDataNode [] [] PNone (PDict [])"] by (simp add: node_map_def)
  then show ?case unfolding round_trip_def using wr rd by blast
next
  case (UnaryOperationDataNode uuid inputs function_id args)
  then have "\<forall>t \<in> set inputs. serializable t \<longrightarrow> round_trip t"
    and "list_all serializable inputs" by simp_all
  then obtain rs where w: "write_inputs inputs = Inr rs" and r: "read_inputs rs = Inr inputs"
    using round_trip_inputs by blast
  have f: "known_function function_map function_id" and a: "is_dict args"
    using UnaryOperationDataNode.prems by simp_all
  define kvs where "kvs = base_write uuid rs @ [(''data_node_type'', PStr ''unary''),
      (''function_id'', function_id)] @ (if truthy args then [(''args'', args)] else [])"
  have o: "input_dicts (map_of kvs ''inputs'') = Inr rs"
      "read_operation function_map kvs = Inr (function_id, args)"
    using round_trip_operation [OF w r f a, of uuid "''unary''"] unfolding kvs_def by simp_all
  have u: "map_of kvs ''uuid'' = Some (PStr uuid)"
    unfolding kvs_def by (rule uuid_base_write)
  have t: "map_of kvs ''data_node_type'' = Some (PStr ''unary'')"
    unfolding kvs_def by (simp add: base_write_def)
  have wr: "write_node (UnaryOperationDataNode uuid inputs function_id args) = Inr (PDict kvs)"
    using w by (simp add: write_operation_def kvs_def)
  have rd: "read n (PDict kvs) = Inr (UnaryOperationDataNode uuid inputs function_id args)"
    if "alike n (UnaryOperationDataNode uuid inputs function_id args)" for n
    using that read_from_record [OF _ u o(1) r, of n] o(2)
    by (cases n) (simp_all add: is_reference_def read_fields_def)
  have "factory (PDict kvs) = Inr (UnaryOperationDataNode uuid inputs function_id args)"
    using t rd [of "UnaryOperationDataNode [] [] PNone (PDict [])"] by (simp add: node_map_def)
  then show ?case unfolding round_trip_def using wr rd by blast
next
  case (BinaryOperationDataNode uuid inputs function_id args)
  then have "\<forall>t \<in> set inputs. serializable t \<longrightarrow> round_trip t"
    and "list_all serializable inputs" by simp_all
  then obtain rs where w: "write_inputs inputs = Inr rs" and r: "read_inputs rs = Inr inputs"
    using round_trip_inputs by blast
  have f: "known_function function_map function_id" and a: "is_dict args"
    using BinaryOperationDataNode.prems by simp_all
  define kvs where "kvs = base_write uuid rs @ [(''data_node_type'', PStr ''binary''),
      (''function_id'', function_id)] @ (if truthy args then [(''args'', args)] else [])"
  have o: "input_dicts (map_of kvs ''inputs'') = Inr rs"
      "read_operation function_map kvs = Inr (function_id, args)"
    using round_trip_operation [OF w r f a, of uuid "''binary''"] unfolding kvs_def by simp_all
  have u: "map_of kvs ''uuid'' = Some (PStr uuid)"
    unfolding kvs_def by (rule uuid_base_write)
  have t: "map_of kvs ''data_node_type'' = Some (PStr ''binary'')"
    unfolding kvs_def by (simp add: base_write_def)
  have wr: "write_node (BinaryOperationDataNode uuid inputs function_id args) = Inr (PDict kvs)"
    using w by (simp add: write_operation_def kvs_def)
  have rd: "read n (PDict kvs) = Inr (BinaryOperationDataNode uuid inputs function_id args)"
    if "alike n (BinaryOperationDataNode uuid inputs function_id args)" for n
    using that read_from_record [OF _ u o(1) r, of n] o(2)
    by (cases n) (simp_all add: is_reference_def read_fields_def)
  have "factory (PDict kvs) = Inr (BinaryOperationDataNode uuid inputs function_id args)"
    using t rd [of "BinaryOperationDataNode [] [] PNone (PDict [])"] by (simp add: node_map_def)
  then show ?case unfolding round_trip_def using wr rd by blast
next
  case (FunctionOperationDataNode uuid inputs function_id args)
  then have "\<forall>t \<in> set inputs. serializable t \<longrightarrow> round_trip t"
    and "list_all serializable inputs" by simp_all
  then obtain rs where w: "write_inputs inputs = Inr rs" and r: "read_inputs rs = Inr inputs"
    using round_trip_inputs by blast
  have f: "known_function function2_map function_id" and a: "is_dict args"
    using FunctionOperationDataNode.prems by simp_all
  define kvs where "kvs = base_write uuid rs @ [(''data_node_type'', PStr ''function''),
      (''function_id'', function_id)] @ (if truthy args then [(''args'', args)] else [])"
  have o: "input_dicts (map_of kvs ''inputs'') = Inr rs"
      "read_operation function2_map kvs = Inr (function_id, args)"
    using round_trip_operation [OF w r f a, of uuid "''function''"] unfolding kvs_def by simp_all
  have u: "map_of kvs ''uuid'' = Some (PStr uuid)"
    unfolding kvs_def by (rule uuid_base_write)
  have t: "map_of kvs ''data_node_type'' = Some (PStr ''function'')"
    unfolding kvs_def by (simp add: base_write_def)
  have wr: "write_node (FunctionOperationDataNode uuid inputs function_id args) = Inr (PDict kvs)"
    using w by (simp add: write_operation_def kvs_def)
  have rd: "read n (PDict kvs) = Inr (FunctionOperationDataNode uuid inputs function_id args)"
    if "alike n (FunctionOperationDataNode uuid inputs function_id args)" for n
    using that read_from_record [OF _ u o(1) r, of n] o(2)
    by (cases n) (simp_all add: is_reference_def read_fields_def)
  have "factory (PDict kvs) = Inr (FunctionOperationDataNode uuid inputs function_id args)"
    using t rd [of "FunctionOperationDataNode [] [] PNone (PDict [])"] by (simp add: node_map_def)
  then show ?case unfolding round_trip_def using wr rd by blast
next
  case (DataItemDataNode uuid inputs object_specifier bound_item)
  then have "\<forall>t \<in> set inputs. serializable t \<longrightarrow> round_trip t"
    and "list_all serializable inputs" and b: "bound_item = None" by simp_all
  then obtain rs where w: "write_inputs inputs = Inr rs" and r: "read_inputs rs = Inr inputs"
    using round_trip_inputs by blast
  define kvs where "kvs = base_write uuid rs @ [(''data_node_type'', PStr ''data''),
      (''object_specifier'', object_specifier)]"
  have i: "input_dicts (map_of kvs ''inputs'') = Inr rs"
    unfolding kvs_def by (simp add: base_write_def input_dicts_def)
  have u: "map_of kvs ''uuid'' = Some (PStr uuid)"
    unfolding kvs_def by (rule uuid_base_write)
  have t: "map_of kvs ''data_node_type'' = Some (PStr ''data'')"
    unfolding kvs_def by (simp add: base_write_def)
  have x: "map_of kvs ''object_specifier'' = Some object_specifier"
      "map_of kvs ''property'' = None"
    unfolding kvs_def by (simp_all add: base_write_def)
  have wr: "write_node (DataItemDataNode uuid inputs object_specifier bound_item) = Inr (PDict kvs)"
    using w by (simp add: kvs_def)
  have rd: "read n (PDict kvs) = Inr (DataItemDataNode uuid inputs object_specifier bound_item)"
    if "alike n (DataItemDataNode uuid inputs object_specifier bound_item)" for n
    using that read_from_record [OF _ u i r, of n] x b
    by (cases n) (simp_all add: is_reference_def read_fields_def)
  have "factory (PDict kvs) = Inr (DataItemDataNode uuid inputs object_specifier bound_item)"
    using t rd [of "DataItemDataNode [] [] PNone None"] by (simp add: node_map_def)
  then show ?case unfolding round_trip_def using wr rd by blast
next
  case (ReferenceDataNode uuid inputs object_specifier)
  then show ?case by simp
next
  case (PropertyDataNode uuid inputs object_specifier property bound_item)
  then have "\<forall>t \<in> set inputs. serializable t \<longrightarrow> round_trip t"
    and "list_all serializable inputs" and b: "bound_item = None" by simp_all
  then obtain rs where w: "write_inputs inputs = Inr rs" and r: "read_inputs rs = Inr inputs"
    using round_trip_inputs by blast
  define kvs where "kvs = base_write uuid rs @ [(''data_node_type'', PStr ''property''),
      (''object_specifier'', object_specifier), (''property'', property)]"
  have i: "input_dicts (map_of kvs ''inputs'') = Inr rs"
    unfolding kvs_def by (simp add: base_write_def input_dicts_def)
  have u: "map_of kvs ''uuid'' = Some (PStr uuid)"
    unfolding kvs_def by (rule uuid_base_write)
  have t: "map_of kvs ''data_node_type'' = Some (PStr ''property'')"
    unfolding kvs_def by (simp add: base_write_def)
  have x: "map_of kvs ''object_specifier'' = Some object_specifier"
      "map_of kvs ''property'' = Some property"
    unfolding kvs_def by (simp_all add: base_write_def)
  have wr: "write_node (PropertyDataNode uuid inputs object_specifier property bound_item) = Inr (PDict kvs)"
    using w by (simp add: kvs_def)
  have rd: "read n (PDict kvs) = Inr (PropertyDataNode uuid inputs object_specifier property bound_item)"
    if "alike n (PropertyDataNode uuid inputs object_specifier property bound_item)" for n
    using that read_from_record [OF _ u i r, of n] x b
    by (cases n) (simp_all add: is_reference_def read_fields_def)
  have "factory (PDict kvs) = Inr (PropertyDataNode uuid inputs object_specifier property bound_item)"
    using t rd [of "PropertyDataNode [] [] PNone (PStr ''None'') None"] by (simp add: node_map_def)
  then show ?case unfolding round_trip_def using wr rd by blast
qed

text \<open>
  Claim C5 says that reading back what \<open>write\<close> gave yields an equal tree, of which a
  second \<open>write\<close> gives the same record. \<open>ConstantDataNode.read\<close> restores the scalar and
  not \<open>__scalar_type\<close>: the tree read back from the record of \<open>a + 2\<close> has a constant
  without scalar type, it differs from the original, and writing it raises
  \<open>AttributeError\<close>. For a complex constant \<open>write\<close> stores a complex number where
  \<open>read\<close> unpacks a sequence, and reading the record raises \<open>TypeError\<close>. (Trees without
  constants do come back equal: \<open>round_trip_serializable\<close>.)
\<close>

theorem constant_round_trip_fails:
  "write_node sum_example = Inr sum_record
   \<and> factory sum_record = Inr sum_reread
   \<and> sum_reread \<noteq> sum_example
   \<and> write_node sum_reread = Inl AttributeError
   \<and> write_node (new_constant ''n4'' (PComplex 1 2)) = Inr complex_record
   \<and> factory complex_record = Inl TypeError"
  by (simp add: sum_example_def sum_record_def sum_reread_def complex_record_def
      write_defs read_defs)

section \<open>Parsing an expression into a computation\<close>

text \<open>
  \<open>parse_expression\<close> hands the text to Python's \<open>exec\<close>. The interpreter is a
  parameter of the model: given the code and the nodes bound to the variable names it
  either completes, with or without a local \<open>result\<close>, or raises an \<open>Exception\<close>, or
  raises something that \<open>except Exception\<close> does not catch. The result can be a node or
  any other value.
\<close>

datatype pyobject = Node data_node | Value pyvalue

datatype exec_outcome = Completed "pyobject option" | RaisedException | RaisedSystemExit

text \<open>
  The loop over \<open>variable_map\<close>: a data node for a specifier of type \<open>data_item\<close>, a
  reference node otherwise, each with a new \<open>uuid\<close>.
\<close>

fun variable_nodes ::
    "(nat \<Rightarrow> string) \<Rightarrow> nat \<Rightarrow> (string \<times> pyvalue) list \<Rightarrow> error + (string \<times> data_node) list" where
  "variable_nodes new_uuid k [] = Inr []"
| "variable_nodes new_uuid k ((variable_name, object_specifier) # rest) =
     (case object_specifier of
        PDict kvs \<Rightarrow>
          (case map_of kvs ''type'' of
             None \<Rightarrow> Inl KeyError
           | Some t \<Rightarrow>
               (let reference_node =
                      (if t = PStr ''data_item''
                       then DataItemDataNode (new_uuid k) [] object_specifier None
                       else ReferenceDataNode (new_uuid k) [] object_specifier)
                in case variable_nodes new_uuid (Suc k) rest of
                     Inl e \<Rightarrow> Inl e
                   | Inr g \<Rightarrow> Inr ((variable_name, reference_node) # g)))
      | _ \<Rightarrow> Inl TypeError)"

definition parse_expression ::
    "(string \<Rightarrow> (string \<times> data_node) list \<Rightarrow> exec_outcome) \<Rightarrow> (nat \<Rightarrow> string) \<Rightarrow>
     string \<Rightarrow> (string \<times> pyvalue) list \<Rightarrow> error + pyobject" where
  "parse_expression exec new_uuid calculation_script variable_map =
     (case variable_nodes new_uuid 0 variable_map of
        Inl e \<Rightarrow> Inl e
      | Inr g \<Rightarrow>
          (case exec (''result = '' @ calculation_script) g of
             RaisedException \<Rightarrow> Inr (Value PNone)
           | RaisedSystemExit \<Rightarrow> Inl SystemExit
           | Completed None \<Rightarrow> Inl KeyError
           | Completed (Some result) \<Rightarrow> Inr result))"

text \<open>\<open>bound_items[self.uuid] = item\<close>, and \<open>bind\<close> over a tree.\<close>

fun setitem :: "(string \<times> 'v) list \<Rightarrow> string \<Rightarrow> 'v \<Rightarrow> (string \<times> 'v) list" where
  "setitem [] k v = [(k, v)]"
| "setitem ((k0, v0) # kvs) k v =
     (if k0 = k then (k, v) # kvs else (k0, v0) # setitem kvs k v)"

fun bind_node ::
    "(pyvalue \<Rightarrow> pyvalue option \<Rightarrow> nat option) \<Rightarrow> data_node \<Rightarrow> (string \<times> nat) list \<Rightarrow>
     error option \<times> data_node \<times> (string \<times> nat) list"
  and bind_inputs ::
    "(pyvalue \<Rightarrow> pyvalue option \<Rightarrow> nat option) \<Rightarrow> data_node list \<Rightarrow> (string \<times> nat) list \<Rightarrow>
     error option \<times> data_node list \<times> (string \<times> nat) list" where
  "bind_node context (ConstantDataNode uuid inputs scalar scalar_type) bound_items =
     (let (e, inputs1, items1) = bind_inputs context inputs bound_items
      in (e, ConstantDataNode uuid inputs1 scalar scalar_type, items1))"
| "bind_node context (ScalarOperationDataNode uuid inputs function_id args) bound_items =
     (let (e, inputs1, items1) = bind_inputs context inputs bound_items
      in (e, ScalarOperationDataNode uuid inputs1 function_id args, items1))"
| "bind_node context (UnaryOperationDataNode uuid inputs function_id args) bound_items =
     (let (e, inputs1, items1) = bind_inputs context inputs bound_items
      in (e, UnaryOperationDataNode uuid inputs1 function_id args, items1))"
| "bind_node context (BinaryOperationDataNode uuid inputs function_id args) bound_items =
     (let (e, inputs1, items1) = bind_inputs context inputs bound_items
      in (e, BinaryOperationDataNode uuid inputs1 function_id args, items1))"
| "bind_node context (FunctionOperationDataNode uuid inputs function_id args) bound_items =
     (let (e, inputs1, items1) = bind_inputs context inputs bound_items
      in (e, FunctionOperationDataNode uuid inputs1 function_id args, items1))"
| "bind_node context (DataItemDataNode uuid inputs object_specifier bound_item) bound_items =
     (case context object_specifier None of
        None \<Rightarrow> (Some AssertionError, DataItemDataNode uuid inputs object_specifier None, bound_items)
      | Some item \<Rightarrow>
          (None, DataItemDataNode uuid inputs object_specifier (Some item),
           setitem bound_items uuid item))"
| "bind_node context (ReferenceDataNode uuid inputs object_specifier) bound_items =
     (Some TypeError, ReferenceDataNode uuid inputs object_specifier, bound_items)"
| "bind_node context (PropertyDataNode uuid inputs object_specifier property bound_item) bound_items =
     (case context object_specifier (Some property) of
        None \<Rightarrow>
          (Some AssertionError, PropertyDataNode uuid inputs object_specifier property None,
           bound_items)
      | Some item \<Rightarrow>
          (None, PropertyDataNode uuid inputs object_specifier property (Some item),
           setitem bound_items uuid item))"
| "bind_inputs context [] bound_items = (None, [], bound_items)"
| "bind_inputs context (input # rest) bound_items =
     (let (e, input1, items1) = bind_node context input bound_items in
      case e of
        Some err \<Rightarrow> (Some err, input1 # rest, items1)
      | None \<Rightarrow>
          (let (e2, rest1, items2) = bind_inputs context rest items1
           in (e2, input1 # rest1, items2)))"

text \<open>
  A \<open>Computation\<close>: the property \<open>node\<close>, \<open>__data_node\<close>, and the bound items and their
  listeners by \<open>uuid\<close>.
\<close>

record computation =
  node :: pyvalue
  data_node :: pyobject
  bound_items :: "(string \<times> nat) list"
  bound_item_listeners :: "string list"

definition new_computation :: computation where
  "new_computation = \<lparr>node = PNone, data_node = Value PNone, bound_items = [],
     bound_item_listeners = []\<rparr>"

definition bind ::
    "(pyvalue \<Rightarrow> pyvalue option \<Rightarrow> nat option) \<Rightarrow> computation \<Rightarrow> error option \<times> computation" where
  "bind context c =
     (if bound_items c \<noteq> [] then (Some AssertionError, c)
      else
        (case data_node c of
           Value v \<Rightarrow> (Some AttributeError, c)
         | Node n \<Rightarrow>
             (let (e, n1, items1) = bind_node context n (bound_items c);
                  c1 = c\<lparr>data_node := Node n1, bound_items := items1\<rparr>
              in case e of
                   Some err \<Rightarrow> (Some err, c1)
                 | None \<Rightarrow> (None, c1\<lparr>bound_item_listeners := map fst items1\<rparr>))))"

definition object_truthy :: "pyobject \<Rightarrow> bool" where
  "object_truthy obj = (case obj of Node n \<Rightarrow> True | Value v \<Rightarrow> truthy v)"

text \<open>
  \<open>Computation.parse_expression\<close>: the result of the parse is assigned to \<open>__data_node\<close>
  whatever it is; only a result that is true is written to \<open>node\<close> and bound.
\<close>

definition computation_parse_expression ::
    "(string \<Rightarrow> (string \<times> data_node) list \<Rightarrow> exec_outcome) \<Rightarrow> (nat \<Rightarrow> string) \<Rightarrow>
     (pyvalue \<Rightarrow> pyvalue option \<Rightarrow> nat option) \<Rightarrow> string \<Rightarrow> (string \<times> pyvalue) list \<Rightarrow>
     computation \<Rightarrow> error option \<times> computation" where
  "computation_parse_expression exec new_uuid context expression variable_map c =
     (case parse_expression exec new_uuid expression variable_map of
        Inl e \<Rightarrow> (Some e, c)
      | Inr result \<Rightarrow>
          (let c1 = c\<lparr>data_node := result\<rparr> in
           if object_truthy result then
             (case result of
                Value v \<Rightarrow> (Some AttributeError, c1)
              | Node n \<Rightarrow>
                  (case write_node n of
                     Inl e \<Rightarrow> (Some e, c1)
                   | Inr d \<Rightarrow> bind context (c1\<lparr>node := d\<rparr>)))
           else (None, c1)))"

text \<open>\<open>Computation.evaluate\<close>; the evaluation of a tree is a parameter.\<close>

definition evaluate ::
    "(data_node \<Rightarrow> (string \<times> nat) list \<Rightarrow> error + 'r) \<Rightarrow> computation \<Rightarrow> error + 'r option" where
  "evaluate evaluate_node c =
     (case data_node c of
        Node n \<Rightarrow>
          (case evaluate_node n (bound_items c) of Inl e \<Rightarrow> Inl e | Inr r \<Rightarrow> Inr (Some r))
      | Value v \<Rightarrow> (if truthy v then Inl AttributeError else Inr None))"

text \<open>
  Concrete input: an interpreter on which the text fails, and a computation with the tree
  of \<open>a + 2\<close> established and bound.
\<close>

definition failing_exec :: "string \<Rightarrow> (string \<times> data_node) list \<Rightarrow> exec_outcome" where
  "failing_exec code g = RaisedException"

definition uuid_example :: "nat \<Rightarrow> string" where
  "uuid_example k = replicate (Suc k) CHR ''v''"

definition context_example :: "pyvalue \<Rightarrow> pyvalue option \<Rightarrow> nat option" where
  "context_example object_specifier property = Some 0"

definition established_example :: computation where
  "established_example = \<lparr>node = sum_record, data_node = Node sum_example,
     bound_items = [(''n2'', 0)], bound_item_listeners = [''n2'']\<rparr>"

text \<open>
  Claim C6, as stated, has a failed parse leave the computation's established node
  untouched. \<open>Computation.parse_expression\<close> assigns the result of the parse to
  \<open>__data_node\<close> before it tests it: after the failed parse of \<open>a +\<close> the data node that
  was there is gone.
\<close>

theorem failed_parse_counterexample:
  "data_node established_example = Node sum_example
   \<and> computation_parse_expression failing_exec uuid_example context_example ''a +''
        [(''a'', specifier_example)] established_example
      = (None, established_example\<lparr>data_node := Value PNone\<rparr>)
   \<and> data_node (established_example\<lparr>data_node := Value PNone\<rparr>) \<noteq> Node sum_example"
  by (simp add: computation_parse_expression_def parse_expression_def failing_exec_def
      established_example_def specifier_example_def object_truthy_def truthy_def)

text \<open>
  Claim C6, amended. When the interpreter raises an exception on the text (the variable
  map being one of specifiers with a type), \<open>parse_expression\<close> returns \<open>None\<close> and raises
  nothing; \<open>Computation.parse_expression\<close> raises nothing either and leaves the property
  \<open>node\<close>, the bound items and their listeners as they were, but it sets \<open>__data_node\<close>
  to \<open>None\<close>, so that \<open>evaluate\<close> returns \<open>None\<close> from then on.
\<close>

theorem failed_parse_resets_data_node:
  assumes "variable_nodes new_uuid 0 variable_map = Inr g"
    and "exec (''result = '' @ expression) g = RaisedException"
  shows "parse_expression exec new_uuid expression variable_map = Inr (Value PNone)
    \<and> computation_parse_expression exec new_uuid context expression variable_map c
        = (None, c\<lparr>data_node := Value PNone\<rparr>)
    \<and> evaluate evaluate_node
         (snd (computation_parse_expression exec new_uuid context expression variable_map c))
        = Inr None"
  using assms
  by (simp add: computation_parse_expression_def parse_expression_def object_truthy_def
      truthy_def evaluate_def)

theorem failed_parse_resets_data_node_witness:
  "variable_nodes uuid_example 0 [(''a'', specifier_example)]
      = Inr [(''a'', DataItemDataNode ''v'' [] specifier_example None)]
   \<and> failing_exec (''result = '' @ ''a +'') [(''a'', DataItemDataNode ''v'' [] specifier_example None)]
      = RaisedException
   \<and> parse_expression failing_exec uuid_example ''a +'' [(''a'', specifier_example)]
      = Inr (Value PNone)
   \<and> node (snd (computation_parse_expression failing_exec uuid_example context_example ''a +''
        [(''a'', specifier_example)] established_example)) = sum_record
   \<and> bound_items (snd (computation_parse_expression failing_exec uuid_example context_example
        ''a +'' [(''a'', specifier_example)] established_example)) = [(''n2'', 0)]
   \<and> data_node (snd (computation_parse_expression failing_exec uuid_example context_example
        ''a +'' [(''a'', specifier_example)] established_example)) = Value PNone"
proof -
  have g: "variable_nodes uuid_example 0 [(''a'', specifier_example)]
      = Inr [(''a'', DataItemDataNode ''v'' [] specifier_example None)]"
    by (simp add: specifier_example_def uuid_example_def)
  have e: "failing_exec (''result = '' @ ''a +'')
      [(''a'', DataItemDataNode ''v'' [] specifier_example None)] = RaisedException"
    by (simp add: failing_exec_def)
  show ?thesis
    using g e failed_parse_resets_data_node [of uuid_example "[(''a'', specifier_example)]"
        "[(''a'', DataItemDataNode ''v'' [] specifier_example None)]" failing_exec "''a +''"
        context_example established_example "\<lambda>n items. Inr ()", OF g e]
    by (simp add: established_example_def)
qed

end
